theory Spec2Isabelle
  imports Complex_Main
begin

section \<open>JavaScript strings and numbers used by the server\<close>

text \<open>
  The server (the Express application in \<^verbatim>\<open>src/src/types.ts\<close>, from
  \<^verbatim>\<open>const express = require('express')\<close> on) receives \<^verbatim>\<open>req.query\<close>, a
  dictionary from parameter names to strings. A JavaScript string is modelled as a
  \<^typ>\<open>string\<close> whose characters are the code units below 256.
\<close>

type_synonym query = "string \<Rightarrow> string option"

text \<open>\<^verbatim>\<open>if (query.x)\<close>: a missing field (\<^verbatim>\<open>undefined\<close>) and the empty string are falsy.\<close>

fun truthy :: "string option \<Rightarrow> bool" where
  "truthy None = False"
| "truthy (Some s) = (s \<noteq> [])"

text \<open>\<^verbatim>\<open>query.x || d\<close>\<close>

fun or_default :: "string option \<Rightarrow> string \<Rightarrow> string" where
  "or_default None d = d"
| "or_default (Some s) d = (if s = [] then d else s)"

subsection \<open>Decimal digits\<close>

definition is_digit :: "char \<Rightarrow> bool" where
  "is_digit c = (c \<in> set ''0123456789'')"

definition digit_char :: "nat \<Rightarrow> char" where
  "digit_char d = ''0123456789'' ! d"

text \<open>The value of a decimal digit: its position among the ten digits.\<close>

definition digit_val :: "char \<Rightarrow> nat" where
  "digit_val c = length (takeWhile (\<lambda>d. d \<noteq> c) ''0123456789'')"

text \<open>
  A non-negative integer in a template literal (\<^verbatim>\<open>`$${params.length}`\<close>,
  \<^verbatim>\<open>`${y + 1}`\<close>) or under \<^verbatim>\<open>String(...)\<close>: its decimal digits without leading zeros.
\<close>

function show_nat :: "nat \<Rightarrow> string" where
  "show_nat n = (if n < 10 then [digit_char n] else show_nat (n div 10) @ [digit_char (n mod 10)])"
  by pat_completeness auto
termination
  by (relation "measure id") auto

declare show_nat.simps [simp del]

definition parse_nat :: "string \<Rightarrow> nat" where
  "parse_nat ds = foldl (\<lambda>a c. 10 * a + digit_val c) 0 ds"

text \<open>\<^verbatim>\<open>xs.join(sep)\<close>\<close>

fun join :: "string \<Rightarrow> string list \<Rightarrow> string" where
  "join sep [] = []"
| "join sep [x] = x"
| "join sep (x # y # ys) = x @ sep @ join sep (y # ys)"

text \<open>
  \<^verbatim>\<open>s.split(sep)\<close> for a non-empty separator, which is also how PostgreSQL's
  \<^verbatim>\<open>split_part\<close> and \<^verbatim>\<open>string_to_array\<close> cut a text at a delimiter: fields are
  cut at the occurrences of \<open>sep\<close> found left to right without overlap. The empty separator
  is not used by the source; the function then returns the text as one field.
\<close>

definition starts_with :: "string \<Rightarrow> string \<Rightarrow> bool" where
  "starts_with p s = (take (length p) s = p)"

function split_acc :: "string \<Rightarrow> string \<Rightarrow> string \<Rightarrow> string list" where
  "split_acc sep acc [] = [rev acc]"
| "split_acc sep acc (c # cs) =
     (if sep \<noteq> [] \<and> starts_with sep (c # cs)
      then rev acc # split_acc sep [] (drop (length sep) (c # cs))
      else split_acc sep (c # acc) cs)"
  by pat_completeness auto
termination
  by (relation "measure (\<lambda>(sep, acc, s). length s)") auto

definition split :: "string \<Rightarrow> string \<Rightarrow> string list" where
  "split sep s = split_acc sep [] s"

text \<open>
  \<^verbatim>\<open>s.trim()\<close> removes white space and line terminators at both ends; among the code
  units below 256 these are TAB, LF, VT, FF, CR, SPACE and the no-break space.
\<close>

definition is_space :: "char \<Rightarrow> bool" where
  "is_space c = (of_char c \<in> {9, 10, 11, 12, 13, 32, 160 :: nat})"

definition trim_start :: "string \<Rightarrow> string" where
  "trim_start s = dropWhile is_space s"

definition trim :: "string \<Rightarrow> string" where
  "trim s = rev (dropWhile is_space (rev (dropWhile is_space s)))"

subsection \<open>Numbers\<close>

text \<open>
  The numbers the server computes are IEEE doubles that hold integers, the two infinities
  and \<^verbatim>\<open>NaN\<close>. \<open>Num v\<close> is the double whose value is the integer \<open>v\<close>; every
  operation below rounds its exact result to the nearest double, ties to even, as the
  source does. Negative zero is not told apart from zero: the server only compares it
  (\<^verbatim>\<open>Math.max\<close>, \<^verbatim>\<open>n > 0\<close>), where the two behave alike.
\<close>

datatype jsnum = NaN | PosInf | NegInf | Num int

text \<open>The number of binary digits of a natural number.\<close>

function bitlen :: "nat \<Rightarrow> nat" where
  "bitlen n = (if n = 0 then 0 else Suc (bitlen (n div 2)))"
  by pat_completeness auto
termination
  by (relation "measure id") auto

declare bitlen.simps [simp del]

text \<open>
  The double nearest to a natural number: the number itself below \<open>2^53\<close>; above, the
  53 leading binary digits, rounded to nearest with ties to even; \<open>None\<close> when the result
  passes the largest double, which is \<^verbatim>\<open>Infinity\<close>.
\<close>

definition round_double :: "nat \<Rightarrow> nat option" where
  "round_double n =
     (if n < 2 ^ 53 then Some n
      else (let u = 2 ^ (bitlen n - 53);
                q = n div u;
                r = n mod u;
                q' = (if u < 2 * r \<or> (u = 2 * r \<and> odd q) then q + 1 else q)
            in if q' * u < 2 ^ 1024 then Some (q' * u) else None))"

definition to_double :: "int \<Rightarrow> jsnum" where
  "to_double v =
     (if 0 \<le> v then (case round_double (nat v) of Some m \<Rightarrow> Num (int m) | None \<Rightarrow> PosInf)
      else (case round_double (nat (- v)) of Some m \<Rightarrow> Num (- int m) | None \<Rightarrow> NegInf))"

text \<open>The value of a character as a digit of radix up to sixteen.\<close>

definition hex_digit_val :: "char \<Rightarrow> nat option" where
  "hex_digit_val c = map_of
     [(CHR ''0'', 0), (CHR ''1'', 1), (CHR ''2'', 2), (CHR ''3'', 3), (CHR ''4'', 4),
      (CHR ''5'', 5), (CHR ''6'', 6), (CHR ''7'', 7), (CHR ''8'', 8), (CHR ''9'', 9),
      (CHR ''a'', 10), (CHR ''b'', 11), (CHR ''c'', 12), (CHR ''d'', 13), (CHR ''e'', 14),
      (CHR ''f'', 15), (CHR ''A'', 10), (CHR ''B'', 11), (CHR ''C'', 12), (CHR ''D'', 13),
      (CHR ''E'', 14), (CHR ''F'', 15)] c"

definition radix_digit :: "nat \<Rightarrow> char \<Rightarrow> nat option" where
  "radix_digit r c =
     (case hex_digit_val c of Some d \<Rightarrow> if d < r then Some d else None | None \<Rightarrow> None)"

text \<open>
  The longest prefix of radix-\<open>r\<close> digits, read as a number and rounded to a double;
  \<^verbatim>\<open>NaN\<close> when that prefix is empty.
\<close>

definition parse_radix :: "nat \<Rightarrow> string \<Rightarrow> jsnum" where
  "parse_radix r s =
     (let Z = takeWhile (\<lambda>c. radix_digit r c \<noteq> None) s
      in if Z = [] then NaN
         else to_double (int (foldl (\<lambda>a c. r * a + (case radix_digit r c of Some d \<Rightarrow> d | None \<Rightarrow> 0)) 0 Z)))"

definition js_negate :: "jsnum \<Rightarrow> jsnum" where
  "js_negate x = (case x of NaN \<Rightarrow> NaN | PosInf \<Rightarrow> NegInf | NegInf \<Rightarrow> PosInf | Num v \<Rightarrow> Num (- v))"

text \<open>
  \<^verbatim>\<open>parseInt(s, radix)\<close>: leading white space is skipped, then an optional sign; with
  radix 10 the decimal digits that follow are read. With no radix a \<^verbatim>\<open>0x\<close> or
  \<^verbatim>\<open>0X\<close> prefix selects radix 16, otherwise the radix is 10.
\<close>

definition parseInt_sign :: "string \<Rightarrow> bool \<times> string" where
  "parseInt_sign s =
     (let S = trim_start s
      in case S of
           [] \<Rightarrow> (False, S)
         | c # r \<Rightarrow> if c = CHR ''-'' then (True, r) else if c = CHR ''+'' then (False, r)
                    else (False, S))"

definition parseInt10 :: "string \<Rightarrow> jsnum" where
  "parseInt10 s =
     (case parseInt_sign s of (neg, S) \<Rightarrow>
        (let v = parse_radix 10 S in if neg then js_negate v else v))"

definition parseInt :: "string \<Rightarrow> jsnum" where
  "parseInt s =
     (case parseInt_sign s of (neg, S) \<Rightarrow>
        (let v = (if starts_with ''0x'' S \<or> starts_with ''0X'' S
                  then parse_radix 16 (drop 2 S) else parse_radix 10 S)
         in if neg then js_negate v else v))"

text \<open>
  \<^verbatim>\<open>Math.max\<close> and \<^verbatim>\<open>Math.min\<close>: \<^verbatim>\<open>NaN\<close> if an argument is, otherwise the larger
  (smaller) one, the infinities being beyond every number.
\<close>

fun js_le :: "jsnum \<Rightarrow> jsnum \<Rightarrow> bool" where
  "js_le NaN _ = False"
| "js_le _ NaN = False"
| "js_le NegInf _ = True"
| "js_le _ PosInf = True"
| "js_le (Num a) (Num b) = (a \<le> b)"
| "js_le _ _ = False"

definition js_max :: "jsnum \<Rightarrow> jsnum \<Rightarrow> jsnum" where
  "js_max a b = (if a = NaN \<or> b = NaN then NaN else if js_le a b then b else a)"

definition js_min :: "jsnum \<Rightarrow> jsnum \<Rightarrow> jsnum" where
  "js_min a b = (if a = NaN \<or> b = NaN then NaN else if js_le a b then a else b)"

text \<open>Subtraction and multiplication of doubles.\<close>

fun js_sub :: "jsnum \<Rightarrow> jsnum \<Rightarrow> jsnum" where
  "js_sub (Num a) (Num b) = to_double (a - b)"
| "js_sub NaN _ = NaN"
| "js_sub _ NaN = NaN"
| "js_sub PosInf PosInf = NaN"
| "js_sub NegInf NegInf = NaN"
| "js_sub PosInf _ = PosInf"
| "js_sub NegInf _ = NegInf"
| "js_sub _ PosInf = NegInf"
| "js_sub _ NegInf = PosInf"

fun js_sign :: "jsnum \<Rightarrow> int" where
  "js_sign NaN = 0"
| "js_sign PosInf = 1"
| "js_sign NegInf = - 1"
| "js_sign (Num v) = sgn v"

fun js_mul :: "jsnum \<Rightarrow> jsnum \<Rightarrow> jsnum" where
  "js_mul (Num a) (Num b) = to_double (a * b)"
| "js_mul a b =
     (if a = NaN \<or> b = NaN \<or> js_sign a * js_sign b = 0 then NaN
      else if 0 < js_sign a * js_sign b then PosInf else NegInf)"

text \<open>\<^verbatim>\<open>Number.isFinite(n) && n > 0\<close>\<close>

fun finite_positive :: "jsnum \<Rightarrow> bool" where
  "finite_positive (Num v) = (0 < v)"
| "finite_positive _ = False"

text \<open>
  A number in a template literal. An integer below \<open>2^53\<close> is written with all its
  digits. A larger one is written with the fewest digits \<open>s\<close> (the \<open>k\<close> digits of a number
  that, followed by zeros up to \<open>n\<close> digits in all, rounds to it; the closest such number,
  and the even one of two equally close): followed by those zeros when \<open>n \<le> 21\<close>, in
  exponent notation otherwise.
\<close>

definition candidates :: "nat \<Rightarrow> nat \<Rightarrow> nat \<Rightarrow> (nat \<times> nat) list" where
  "candidates x k n =
     (if n < k then []
      else filter (\<lambda>(s, m). 10 ^ (k - 1) \<le> s \<and> s < 10 ^ k
                     \<and> round_double (s * 10 ^ (n - k)) = Some x)
             [(x div 10 ^ (n - k), n), (x div 10 ^ (n - k) + 1, n)])"

definition digit_choices :: "nat \<Rightarrow> nat \<Rightarrow> (nat \<times> nat) list" where
  "digit_choices x k =
     candidates x k (length (show_nat x)) @ candidates x k (Suc (length (show_nat x)))"

definition distance :: "nat \<Rightarrow> nat \<Rightarrow> nat \<times> nat \<Rightarrow> nat" where
  "distance x k c = (case c of (s, n) \<Rightarrow>
     (if x \<le> s * 10 ^ (n - k) then s * 10 ^ (n - k) - x else x - s * 10 ^ (n - k)))"

fun closest :: "nat \<Rightarrow> nat \<Rightarrow> (nat \<times> nat) list \<Rightarrow> (nat \<times> nat) option" where
  "closest x k [] = None"
| "closest x k (c # cs) =
     (case closest x k cs of
        None \<Rightarrow> Some c
      | Some d \<Rightarrow>
          if distance x k c < distance x k d \<or> (distance x k c = distance x k d \<and> even (fst c))
          then Some c else Some d)"

definition shortest_digits :: "nat \<Rightarrow> (nat \<times> nat \<times> nat) option" where
  "shortest_digits x =
     (case filter (\<lambda>k. digit_choices x k \<noteq> []) [1..<18] of
        [] \<Rightarrow> None
      | k # _ \<Rightarrow> (case closest x k (digit_choices x k) of
                    None \<Rightarrow> None
                  | Some (s, n) \<Rightarrow> Some (k, s, n)))"

definition show_double :: "nat \<Rightarrow> string" where
  "show_double x =
     (if x < 2 ^ 53 then show_nat x
      else (case shortest_digits x of
              None \<Rightarrow> show_nat x
            | Some (k, s, n) \<Rightarrow>
                if n \<le> 21 then show_nat s @ replicate (n - k) CHR ''0''
                else if k = 1 then show_nat s @ ''e+'' @ show_nat (n - 1)
                else take 1 (show_nat s) @ ''.'' @ drop 1 (show_nat s) @ ''e+''
                       @ show_nat (n - 1)))"

fun show_jsnum :: "jsnum \<Rightarrow> string" where
  "show_jsnum NaN = ''NaN''"
| "show_jsnum PosInf = ''Infinity''"
| "show_jsnum NegInf = ''-Infinity''"
| "show_jsnum (Num v) = (if v < 0 then ''-'' @ show_double (nat (- v)) else show_double (nat v))"

section \<open>The filter compiler: \<^verbatim>\<open>buildWhere\<close>\<close>

text \<open>
  A bound parameter is a string, a number, or (for \<^verbatim>\<open>dateTo\<close> values that are not two
  short digit groups, see \<open>nextMonth\<close>) a value this model leaves open.
\<close>

datatype param = PStr string | PNum jsnum | POther

abbreviation sq :: string where
  "sq \<equiv> [CHR 0x27]"

text \<open>The two arrays \<^verbatim>\<open>conds\<close> and \<^verbatim>\<open>params\<close> that \<^verbatim>\<open>buildWhere\<close> fills.\<close>

type_synonym builder = "string list \<times> param list"

definition init :: builder where
  "init = ([''po.state IN ('purchase','done')''], [])"

text \<open>Date from (default: start of 2025).\<close>

definition date_from :: "query \<Rightarrow> builder \<Rightarrow> builder" where
  "date_from query = (\<lambda>(conds, params).
     let rawFrom = or_default (query ''dateFrom'') ''2025-01'';
         params = params @ [PStr (rawFrom @ ''-01'')]
     in (conds @ [''po.date_order >= $'' @ show_nat (length params) @ ''::date''], params))"

text \<open>
  \<^verbatim>\<open>const [y, m] = query.dateTo.split('-').map(Number)\<close> and the string
  \<^verbatim>\<open>nextMonth\<close>. \<^verbatim>\<open>Number\<close> is modelled on tokens of one to fifteen decimal digits,
  where it is the number written; for any other \<^verbatim>\<open>dateTo\<close> (a missing second
  group, signs, fractions, exponents, other text) the pushed value is left open.
\<close>

definition small_digits :: "string \<Rightarrow> bool" where
  "small_digits t = (t \<noteq> [] \<and> length t \<le> 15 \<and> list_all is_digit t)"

definition padStart2 :: "string \<Rightarrow> string" where
  "padStart2 s = replicate (2 - length s) CHR ''0'' @ s"

definition nextMonth :: "string \<Rightarrow> param" where
  "nextMonth dateTo =
     (case split ''-'' dateTo of
        ys # ms # _ \<Rightarrow>
          if small_digits ys \<and> small_digits ms
          then (let y = parse_nat ys; m = parse_nat ms
                in PStr (if m = 12 then show_nat (y + 1) @ ''-01-01''
                         else show_nat y @ ''-'' @ padStart2 (show_nat (m + 1)) @ ''-01''))
          else POther
      | _ \<Rightarrow> POther)"

text \<open>Date to (inclusive month).\<close>

definition date_to :: "query \<Rightarrow> builder \<Rightarrow> builder" where
  "date_to query = (\<lambda>(conds, params).
     if truthy (query ''dateTo'')
     then (let params = params @ [nextMonth (or_default (query ''dateTo'') [])]
           in (conds @ [''po.date_order < $'' @ show_nat (length params) @ ''::date''], params))
     else (conds @ [''po.date_order < '2099-01-01'' @ sq], params))"

text \<open>
  Category levels (exact match): the block for \<^verbatim>\<open>catL1\<close>, \<^verbatim>\<open>catL2\<close>,
  \<^verbatim>\<open>catL3\<close>, with the level \<open>n\<close> written 1, 2 or 3 in the conjunct.
\<close>

definition category_level :: "nat \<Rightarrow> string option \<Rightarrow> builder \<Rightarrow> builder" where
  "category_level n field = (\<lambda>(conds, params).
     if truthy field
     then (let params = params @ [PStr (or_default field [])]
           in (conds @ [''NULLIF(split_part(pc.complete_name,' / ','' @ show_nat n @ ''),''
                          @ sq @ sq @ '') = $'' @ show_nat (length params)], params))
     else (conds, params))"

text \<open>Free-text search (SKU prefix or product name).\<close>

definition search_text :: "query \<Rightarrow> builder \<Rightarrow> builder" where
  "search_text query = (\<lambda>(conds, params).
     if truthy (query ''search'')
     then (let params = params @ [PStr (''%'' @ or_default (query ''search'') [] @ ''%'')];
               n = length params
           in (conds @ [''(COALESCE(pp.default_code,pt.default_code) ILIKE $'' @ show_nat n
                          @ '' OR pt.name->>'en_US' ILIKE $'' @ show_nat n @ '')''], params))
     else (conds, params))"

text \<open>\<^verbatim>\<open>xs.map((_, i) => `$${params.length + 1 + i}`).join(', ')\<close> for \<open>k\<close> values.\<close>

definition in_placeholders :: "nat \<Rightarrow> nat \<Rightarrow> string" where
  "in_placeholders len k = join '', '' (map (\<lambda>i. ''$'' @ show_nat (len + 1 + i)) [0..<k])"

text \<open>Specific SKUs selected via typeahead (comma-separated).\<close>

definition skuList :: "query \<Rightarrow> string list" where
  "skuList query =
     filter (\<lambda>s. s \<noteq> []) (map trim (split '','' (or_default (query ''skus'') [])))"

definition skus :: "query \<Rightarrow> builder \<Rightarrow> builder" where
  "skus query = (\<lambda>(conds, params).
     if truthy (query ''skus'') \<and> 0 < length (skuList query)
     then (conds @ [''COALESCE(pp.default_code,pt.default_code) IN (''
                      @ in_placeholders (length params) (length (skuList query)) @ '')''],
           params @ map PStr (skuList query))
     else (conds, params))"

text \<open>Template-level filter (\<^verbatim>\<open>productTmplIds\<close>, comma-separated integers).\<close>

definition ids :: "query \<Rightarrow> jsnum list" where
  "ids query =
     filter finite_positive
       (map (\<lambda>s. parseInt10 (trim s)) (split '','' (or_default (query ''productTmplIds'') [])))"

definition productTmplIds :: "query \<Rightarrow> builder \<Rightarrow> builder" where
  "productTmplIds query = (\<lambda>(conds, params).
     if truthy (query ''productTmplIds'') \<and> 0 < length (ids query)
     then (conds @ [''pp.product_tmpl_id IN (''
                      @ in_placeholders (length params) (length (ids query)) @ '')''],
           params @ map PNum (ids query))
     else (conds, params))"

text \<open>The arrays at the \<^verbatim>\<open>return\<close>, the blocks having run in the source's order.\<close>

definition buildConds :: "query \<Rightarrow> builder" where
  "buildConds query =
     productTmplIds query (skus query (search_text query
       (category_level 3 (query ''catL3'') (category_level 2 (query ''catL2'')
         (category_level 1 (query ''catL1'') (date_to query (date_from query init)))))))"

text \<open>\<^verbatim>\<open>return { where: conds.join(' AND '), params }\<close>\<close>

definition buildWhere :: "query \<Rightarrow> string \<times> param list" where
  "buildWhere query = (case buildConds query of (conds, params) \<Rightarrow> (join '' AND '' conds, params))"

text \<open>
  The positional placeholders of a piece of SQL, left to right: each \<^verbatim>\<open>$\<close> that is
  followed by decimal digits, with the number those digits write.
\<close>

fun placeholders :: "string \<Rightarrow> nat list" where
  "placeholders [] = []"
| "placeholders (c # cs) =
     (if c = CHR ''$'' \<and> takeWhile is_digit cs \<noteq> []
      then parse_nat (takeWhile is_digit cs) # placeholders cs
      else placeholders cs)"

section \<open>What the compiled SQL means\<close>

text \<open>
  SQL values are \<open>None\<close> (NULL) or \<open>Some\<close> value; a comparison is three-valued and a
  \<^verbatim>\<open>WHERE\<close> clause keeps the rows on which it is \<open>Some True\<close>.
\<close>

definition NULLIF :: "'a option \<Rightarrow> 'a \<Rightarrow> 'a option" where
  "NULLIF a b = (case a of None \<Rightarrow> None | Some x \<Rightarrow> if x = b then None else Some x)"

definition COALESCE :: "'a option \<Rightarrow> 'a \<Rightarrow> 'a" where
  "COALESCE a b = (case a of None \<Rightarrow> b | Some x \<Rightarrow> x)"

definition sql_eq :: "'a option \<Rightarrow> 'a option \<Rightarrow> bool option" where
  "sql_eq a b = (case (a, b) of (Some x, Some y) \<Rightarrow> Some (x = y) | _ \<Rightarrow> None)"

text \<open>
  \<^verbatim>\<open>split_part(text, delimiter, n)\<close> for \<open>n \<ge> 1\<close>: the \<open>n\<close>-th field, the empty
  string when there are fewer fields, NULL on NULL.
\<close>

definition split_part :: "string option \<Rightarrow> string \<Rightarrow> nat \<Rightarrow> string option" where
  "split_part s d n =
     (case s of
        None \<Rightarrow> None
      | Some t \<Rightarrow> (let fs = split d t in Some (if n \<le> length fs then fs ! (n - 1) else [])))"

text \<open>
  The category conjunct \<^verbatim>\<open>NULLIF(split_part(pc.complete_name,' / ',n),'') = $k\<close> on a row
  whose \<^verbatim>\<open>pc.complete_name\<close> is \<open>complete_name\<close> (NULL when the template has no
  category: \<^verbatim>\<open>LEFT JOIN\<close>), with \<^verbatim>\<open>$k\<close> bound to \<open>v\<close>.
\<close>

definition category_segment :: "nat \<Rightarrow> string option \<Rightarrow> string option" where
  "category_segment n complete_name = NULLIF (split_part complete_name '' / '' n) []"

definition category_conjunct :: "nat \<Rightarrow> string option \<Rightarrow> string \<Rightarrow> bool option" where
  "category_conjunct n complete_name v = sql_eq (category_segment n complete_name) (Some v)"

text \<open>The text of that conjunct, as \<open>category_level\<close> appends it.\<close>

definition category_cond :: "nat \<Rightarrow> nat \<Rightarrow> string" where
  "category_cond n k = ''NULLIF(split_part(pc.complete_name,' / ','' @ show_nat n @ ''),''
                          @ sq @ sq @ '') = $'' @ show_nat k"

text \<open>
  The number of segments of a category path, as
  \<^verbatim>\<open>array_length(string_to_array(pc.complete_name,' / '),1)\<close> counts them: a NULL path
  and the empty path have none.
\<close>

definition segments :: "string option \<Rightarrow> nat" where
  "segments complete_name =
     (case complete_name of
        None \<Rightarrow> 0
      | Some t \<Rightarrow> if t = [] then 0 else length (split '' / '' t))"

text \<open>Calendar dates as (year, month, day), compared as SQL compares dates.\<close>

type_synonym date = "nat \<times> nat \<times> nat"

fun date_less :: "date \<Rightarrow> date \<Rightarrow> bool" where
  "date_less (y, m, d) (y', m', d') = (y < y' \<or> (y = y' \<and> (m < m' \<or> (m = m' \<and> d < d'))))"

text \<open>
  The first day of the month after month \<open>m\<close> of year \<open>y\<close>, as the specification words it,
  and a date written year-month-day with two-digit month and day.
\<close>

definition following_month :: "nat \<Rightarrow> nat \<Rightarrow> date" where
  "following_month y m = (if m = 12 then (y + 1, 1, 1) else (y, m + 1, 1))"

fun show_date :: "date \<Rightarrow> string" where
  "show_date (y, m, d) = show_nat y @ ''-'' @ padStart2 (show_nat m) @ ''-'' @ padStart2 (show_nat d)"

subsection \<open>The KPI aggregate\<close>

text \<open>
  A value of PostgreSQL's \<^verbatim>\<open>numeric\<close> type: an integer of decimal digits and the
  display scale, the number of those digits that follow the decimal point. The special
  values \<^verbatim>\<open>NaN\<close> and \<^verbatim>\<open>Infinity\<close> of the type are not among the values modelled.
\<close>

record numeric =
  unscaled :: int
  dscale :: nat

definition nval :: "numeric \<Rightarrow> rat" where
  "nval x = of_int (unscaled x) / 10 ^ dscale x"

text \<open>The literals \<^verbatim>\<open>0\<close> and \<^verbatim>\<open>100.0\<close> of the query.\<close>

definition numeric_0 :: numeric where
  "numeric_0 = \<lparr>unscaled = 0, dscale = 0\<rparr>"

definition numeric_100 :: numeric where
  "numeric_100 = \<lparr>unscaled = 1000, dscale = 1\<rparr>"

text \<open>
  Products and sums are exact; the scale of a product is the sum of the scales, the scale
  of a sum the larger one.
\<close>

definition numeric_mul :: "numeric \<Rightarrow> numeric \<Rightarrow> numeric" where
  "numeric_mul a b = \<lparr>unscaled = unscaled a * unscaled b, dscale = dscale a + dscale b\<rparr>"

definition numeric_add :: "numeric \<Rightarrow> numeric \<Rightarrow> numeric" where
  "numeric_add a b =
     (let d = max (dscale a) (dscale b)
      in \<lparr>unscaled = unscaled a * 10 ^ (d - dscale a) + unscaled b * 10 ^ (d - dscale b),
           dscale = d\<rparr>)"

text \<open>The integer nearest to the fraction \<open>n / d\<close>, ties away from zero.\<close>

definition div_half_away :: "int \<Rightarrow> int \<Rightarrow> int" where
  "div_half_away n d = sgn n * sgn d * ((2 * \<bar>n\<bar> + \<bar>d\<bar>) div (2 * \<bar>d\<bar>))"

text \<open>
  \<^verbatim>\<open>numeric\<close> keeps its digits in base 10000. The weight of a value is the power of
  10000 of its first non-zero base-10000 digit; zero has weight 0 and first digit 0.
\<close>

function nbase_weight :: "nat \<Rightarrow> nat" where
  "nbase_weight n = (if n < 10000 then 0 else Suc (nbase_weight (n div 10000)))"
  by pat_completeness auto
termination
  by (relation "measure id") auto

declare nbase_weight.simps [simp del]

function frac_shift :: "nat \<Rightarrow> nat \<Rightarrow> nat" where
  "frac_shift a b = (if a = 0 \<or> b \<le> a then 0 else Suc (frac_shift (a * 10000) b))"
  by pat_completeness auto
termination
  by (relation "measure (\<lambda>(a, b). b - a)") auto

declare frac_shift.simps [simp del]

definition weight_digit :: "numeric \<Rightarrow> int \<times> nat" where
  "weight_digit x =
     (let a = nat \<bar>unscaled x\<bar>; b = 10 ^ dscale x
      in if a = 0 then (0, 0)
         else if b \<le> a
         then (int (nbase_weight (a div b)), (a div b) div 10000 ^ nbase_weight (a div b))
         else (- int (frac_shift a b), (a * 10000 ^ frac_shift a b) div b))"

text \<open>
  The scale PostgreSQL gives a quotient (\<^verbatim>\<open>select_div_scale\<close>): enough for sixteen
  significant digits by the weights and first digits of the operands, not less than
  either operand's scale, and at most 1000.
\<close>

definition select_div_scale :: "numeric \<Rightarrow> numeric \<Rightarrow> nat" where
  "select_div_scale a b =
     (case (weight_digit a, weight_digit b) of ((w1, f1), (w2, f2)) \<Rightarrow>
        (let qweight = w1 - w2 - (if f1 \<le> f2 then 1 else 0)
         in nat (min 1000 (max (max (16 - qweight * 4) (int (dscale a))) (int (dscale b))))))"

text \<open>The quotient, rounded at that scale with ties away from zero.\<close>

definition numeric_div :: "numeric \<Rightarrow> numeric \<Rightarrow> numeric" where
  "numeric_div a b =
     \<lparr>unscaled = div_half_away (unscaled a * 10 ^ (dscale b + select_div_scale a b))
                   (unscaled b * 10 ^ dscale a),
      dscale = select_div_scale a b\<rparr>"

text \<open>\<^verbatim>\<open>ROUND(v, 1)\<close>: to one decimal, ties away from zero.\<close>

definition ROUND1 :: "numeric \<Rightarrow> numeric" where
  "ROUND1 x = \<lparr>unscaled = div_half_away (unscaled x * 10) (10 ^ dscale x), dscale = 1\<rparr>"

text \<open>
  One joined purchase-order line that passed the \<^verbatim>\<open>WHERE\<close> clause, with the columns
  the KPI query reads.
\<close>

record pol =
  product_qty :: "numeric option"
  price_unit :: "numeric option"
  qty_received :: "numeric option"
  qty_invoiced :: "numeric option"
  month :: string

datatype sql_error = DivisionByZero

definition sql_times :: "numeric option \<Rightarrow> numeric option \<Rightarrow> numeric option" where
  "sql_times a b = (case (a, b) of (Some x, Some y) \<Rightarrow> Some (numeric_mul x y) | _ \<Rightarrow> None)"

text \<open>\<^verbatim>\<open>SUM\<close> skips NULL inputs and is NULL when nothing is left.\<close>

definition SUM_agg :: "numeric option list \<Rightarrow> numeric option" where
  "SUM_agg xs =
     (case List.map_filter id xs of [] \<Rightarrow> None | y # ys \<Rightarrow> Some (foldl numeric_add y ys))"

text \<open>\<^verbatim>\<open>NULLIF(x, 0)\<close> on numeric values, which are compared by value.\<close>

definition NULLIF_0 :: "numeric option \<Rightarrow> numeric option" where
  "NULLIF_0 a = (case a of None \<Rightarrow> None | Some x \<Rightarrow> if unscaled x = 0 then None else Some x)"

text \<open>Division raises on a zero divisor and is NULL on a NULL operand.\<close>

definition sql_divide :: "numeric option \<Rightarrow> numeric option \<Rightarrow> sql_error + numeric option" where
  "sql_divide a b =
     (case (a, b) of
        (Some x, Some y) \<Rightarrow>
          if unscaled y = 0 then Inl DivisionByZero else Inr (Some (numeric_div x y))
      | _ \<Rightarrow> Inr None)"

text \<open>\<^verbatim>\<open>ROUND(100.0 * COALESCE(num, 0) / NULLIF(den, 0), 1)\<close>\<close>

definition pct :: "numeric option \<Rightarrow> numeric option \<Rightarrow> sql_error + numeric option" where
  "pct num den =
     (case sql_divide (Some (numeric_mul numeric_100 (COALESCE num numeric_0))) (NULLIF_0 den) of
        Inl e \<Rightarrow> Inl e
      | Inr v \<Rightarrow> Inr (map_option ROUND1 v))"

record kpi =
  total_lines :: nat
  total_ordered_value :: numeric
  total_ordered_qty :: numeric
  total_received_value :: numeric
  total_invoiced_value :: numeric
  pct_received :: "numeric option"
  pct_invoiced :: "numeric option"
  distinct_months :: nat

text \<open>The single row of \<^verbatim>\<open>GET /api/po/kpis\<close> over the selected lines.\<close>

definition kpis :: "pol list \<Rightarrow> sql_error + kpi" where
  "kpis rows =
     (let ordered = SUM_agg (map (\<lambda>r. sql_times (product_qty r) (price_unit r)) rows);
          received = SUM_agg (map (\<lambda>r. sql_times (qty_received r) (price_unit r)) rows);
          invoiced = SUM_agg (map (\<lambda>r. sql_times (qty_invoiced r) (price_unit r)) rows)
      in case pct received ordered of
           Inl e \<Rightarrow> Inl e
         | Inr pr \<Rightarrow>
             (case pct invoiced ordered of
                Inl e \<Rightarrow> Inl e
              | Inr pinv \<Rightarrow>
                  Inr \<lparr> total_lines = length rows,
                        total_ordered_value = COALESCE ordered numeric_0,
                        total_ordered_qty = COALESCE (SUM_agg (map product_qty rows)) numeric_0,
                        total_received_value = COALESCE received numeric_0,
                        total_invoiced_value = COALESCE invoiced numeric_0,
                        pct_received = pr,
                        pct_invoiced = pinv,
                        distinct_months = length (remdups (map month rows)) \<rparr>))"

text \<open>
  The sums the specification speaks of, over the lines themselves: the sum of quantity
  times price over the lines where neither is NULL.
\<close>

definition value_sum :: "(pol \<Rightarrow> numeric option) \<Rightarrow> pol list \<Rightarrow> rat" where
  "value_sum f rows =
     sum_list (map (\<lambda>r. case (f r, price_unit r) of
                          (Some a, Some p) \<Rightarrow> nval a * nval p
                        | _ \<Rightarrow> 0) rows)"

text \<open>A rational rounded to an integer, and at \<open>s\<close> decimals, ties away from zero.\<close>

definition round_half_away :: "rat \<Rightarrow> int" where
  "round_half_away x = (if 0 \<le> x then \<lfloor>x + 1 / 2\<rfloor> else - \<lfloor>- x + 1 / 2\<rfloor>)"

definition round_at :: "nat \<Rightarrow> rat \<Rightarrow> rat" where
  "round_at s x = of_int (round_half_away (x * 10 ^ s)) / 10 ^ s"

section \<open>\<^verbatim>\<open>GET /api/po/lines\<close>\<close>

text \<open>
  \<^verbatim>\<open>page\<close>, \<^verbatim>\<open>pageSize\<close> and \<^verbatim>\<open>offset\<close> as the handler computes them.
\<close>

definition page :: "query \<Rightarrow> jsnum" where
  "page query = js_max (Num 1) (parseInt (or_default (query ''page'') ''1''))"

definition pageSize :: "query \<Rightarrow> jsnum" where
  "pageSize query =
     js_min (Num 200) (js_max (Num 10) (parseInt (or_default (query ''pageSize'') ''50'')))"

definition offset :: "query \<Rightarrow> jsnum" where
  "offset query = js_mul (js_sub (page query) (Num 1)) (pageSize query)"

text \<open>
  \<^verbatim>\<open>SORTABLE\<close> is an object literal, so \<^verbatim>\<open>SORTABLE[key]\<close> finds its eleven own
  properties and, for any other key, the properties every object inherits from
  \<^verbatim>\<open>Object.prototype\<close>: built-in functions, and under \<^verbatim>\<open>__proto__\<close> the prototype
  object itself.
\<close>

definition SORTABLE :: "(string \<times> string) list" where
  "SORTABLE =
     [(''month'', ''month''),
      (''sku'', ''sku''),
      (''product_name_en'', ''product_name_en''),
      (''category_l1'', ''category_l1''),
      (''category_l2'', ''category_l2''),
      (''category_l3'', ''category_l3''),
      (''ordered_qty'', ''ordered_qty_po_uom''),
      (''received_qty'', ''received_qty_po_uom''),
      (''invoiced_qty'', ''invoiced_qty_po_uom''),
      (''ordered_value'', ''ordered_value_thb''),
      (''avg_price'', ''avg_price_unit_thb'')]"

datatype jsval = JUndefined | JString string | JFunction string | JObject

definition Object_prototype :: "(string \<times> jsval) list" where
  "Object_prototype =
     [(''constructor'', JFunction ''Object''),
      (''hasOwnProperty'', JFunction ''hasOwnProperty''),
      (''isPrototypeOf'', JFunction ''isPrototypeOf''),
      (''propertyIsEnumerable'', JFunction ''propertyIsEnumerable''),
      (''toLocaleString'', JFunction ''toLocaleString''),
      (''toString'', JFunction ''toString''),
      (''valueOf'', JFunction ''valueOf''),
      (''__defineGetter__'', JFunction ''__defineGetter__''),
      (''__defineSetter__'', JFunction ''__defineSetter__''),
      (''__lookupGetter__'', JFunction ''__lookupGetter__''),
      (''__lookupSetter__'', JFunction ''__lookupSetter__''),
      (''__proto__'', JObject)]"

text \<open>\<^verbatim>\<open>SORTABLE[req.query.sortBy]\<close>; a missing \<^verbatim>\<open>sortBy\<close> reads the key \<^verbatim>\<open>undefined\<close>.\<close>

definition SORTABLE_get :: "string option \<Rightarrow> jsval" where
  "SORTABLE_get key =
     (let k = (case key of None \<Rightarrow> ''undefined'' | Some s \<Rightarrow> s)
      in case map_of SORTABLE k of
           Some col \<Rightarrow> JString col
         | None \<Rightarrow> (case map_of Object_prototype k of Some v \<Rightarrow> v | None \<Rightarrow> JUndefined))"

text \<open>\<^verbatim>\<open>SORTABLE[req.query.sortBy] || 'month'\<close>, as the template literal then writes it.\<close>

definition sortCol :: "query \<Rightarrow> string" where
  "sortCol query =
     (case SORTABLE_get (query ''sortBy'') of
        JUndefined \<Rightarrow> ''month''
      | JString col \<Rightarrow> (if col = [] then ''month'' else col)
      | JFunction name \<Rightarrow> ''function '' @ name @ ''() { [native code] }''
      | JObject \<Rightarrow> ''[object Object]'')"

definition sortDir :: "query \<Rightarrow> string" where
  "sortDir query = (if query ''sortDir'' = Some ''asc'' then ''ASC'' else ''DESC'')"

text \<open>The last two lines of \<^verbatim>\<open>dataSql\<close>, where request values are interpolated.\<close>

definition order_by :: "query \<Rightarrow> string" where
  "order_by query =
     ''ORDER BY '' @ sortCol query @ '' '' @ sortDir query @ '', sku ''
       @ (if sortDir query = ''DESC'' then ''ASC'' else ''DESC'')"

definition limit_offset :: "query \<Rightarrow> string" where
  "limit_offset query =
     ''LIMIT '' @ show_jsnum (pageSize query) @ '' OFFSET '' @ show_jsnum (offset query)"

text \<open>
  The database behind the two statements of the handler. \<open>count_rows db w ps\<close> is the
  outcome of \<^verbatim>\<open>countSql\<close> for the clause \<open>w\<close> and parameters \<open>ps\<close>: rejected with a
  message, or the \<^verbatim>\<open>total\<close>. \<open>data_rows db w ps col dir l off\<close> is the outcome of
  \<^verbatim>\<open>dataSql\<close> ordered by \<^verbatim>\<open>col dir, sku\<close> in the other direction, with
  \<^verbatim>\<open>LIMIT l OFFSET off\<close>. Every call is a statement of its own: the database may
  reject it (a parameter that is not a date, say) and may order rows that tie in the
  \<^verbatim>\<open>ORDER BY\<close> differently from one statement to the next. A statement whose
  \<^verbatim>\<open>LIMIT\<close> or \<^verbatim>\<open>OFFSET\<close> is not written as an integer (\<^verbatim>\<open>NaN\<close>,
  \<^verbatim>\<open>Infinity\<close>, \<^verbatim>\<open>1e+21\<close>), whose \<^verbatim>\<open>OFFSET\<close> is beyond the largest
  \<^verbatim>\<open>bigint\<close>, or whose \<^verbatim>\<open>ORDER BY\<close> is not a column of the result, is rejected
  without being run. When either statement is rejected, the handler's \<^verbatim>\<open>catch\<close>
  answers with status 500.
\<close>

record 'r database =
  count_rows :: "string \<Rightarrow> param list \<Rightarrow> string + nat"
  data_rows :: "string \<Rightarrow> param list \<Rightarrow> string \<Rightarrow> string \<Rightarrow> nat \<Rightarrow> nat \<Rightarrow> string + 'r list"

record 'r lines_response =
  total :: jsnum
  page_no :: jsnum
  page_size :: jsnum
  data :: "'r list"

datatype 'a reply = Json 'a | Status500

definition bigint_max :: int where
  "bigint_max = 9223372036854775807"

text \<open>
  \<^verbatim>\<open>pageSize\<close> and \<^verbatim>\<open>offset\<close> reach the database as the text JavaScript prints for
  them. The database reads a non-negative integer from a text of decimal digits only.
\<close>

definition sql_integer :: "string \<Rightarrow> nat option" where
  "sql_integer s = (if s \<noteq> [] \<and> list_all is_digit s then Some (parse_nat s) else None)"

text \<open>
  The handler. \<^verbatim>\<open>total\<close> is \<^verbatim>\<open>parseInt\<close> of the count, which arrives as a decimal
  text.
\<close>

definition lines :: "'r database \<Rightarrow> query \<Rightarrow> 'r lines_response reply" where
  "lines db query =
     (case buildWhere query of (w, params) \<Rightarrow>
        (case (sql_integer (show_jsnum (pageSize query)),
               sql_integer (show_jsnum (offset query))) of
           (Some l, Some off) \<Rightarrow>
             if sortCol query \<in> set (map snd SORTABLE) \<and> int off \<le> bigint_max
             then (case (count_rows db w params,
                         data_rows db w params (sortCol query) (sortDir query) l off) of
                     (Inr t, Inr rows) \<Rightarrow>
                       Json \<lparr> total = parseInt (show_nat t),
                              page_no = page query,
                              page_size = pageSize query,
                              data = rows \<rparr>
                   | _ \<Rightarrow> Status500)
             else Status500
         | _ \<Rightarrow> Status500))"






section \<open>The typeahead endpoints\<close>

text \<open>
  \<^verbatim>\<open>pool.query(sql, params)\<close> either yields rows or rejects. A handler's outcome is its
  reply together with the queries it sent, in order. SQL templates are written with each
  run of layout white space (line breaks, indentation, alignment) as one space and
  without the layout at their two ends.
\<close>

type_synonym 'r pool = "string \<Rightarrow> param list \<Rightarrow> string + 'r list"

type_synonym 'r outcome = "'r list reply \<times> (string \<times> param list) list"

definition BASE_JOINS :: string where
  "BASE_JOINS = ''FROM purchase_order_line pol JOIN purchase_order po ON po.id = pol.order_id JOIN product_product pp ON pp.id = pol.product_id JOIN product_template pt ON pt.id = pp.product_tmpl_id LEFT JOIN product_category pc ON pc.id = pt.categ_id LEFT JOIN uom_uom uom_pol ON uom_pol.id = pol.product_uom''"

definition run_query :: "'r pool \<Rightarrow> string \<Rightarrow> param list \<Rightarrow> 'r outcome" where
  "run_query pool sql params =
     (case pool sql params of
        Inl err \<Rightarrow> (Status500, [(sql, params)])
      | Inr rows \<Rightarrow> (Json rows, [(sql, params)]))"

definition products :: "'r pool \<Rightarrow> query \<Rightarrow> 'r outcome" where
  "products pool query =
     (let q = trim (or_default (query ''q'') [])
      in if length q < 1 then (Json [], [])
         else (case buildWhere query of (w, params) \<Rightarrow>
           (let likeIdx = length params + 1;
                params = params @ [PStr (''%'' @ q @ ''%'')];
                sql = ''SELECT DISTINCT pt.id AS tmpl_id, TRIM(pt.name->>'en_US') AS product_name, pt.default_code AS template_sku ''
                      @ BASE_JOINS @ '' WHERE '' @ w
                      @ '' AND ( TRIM(pt.name->>'en_US') ILIKE $'' @ show_nat likeIdx
                      @ '' OR pt.default_code ILIKE $'' @ show_nat likeIdx
                      @ '' ) ORDER BY product_name LIMIT 20''
            in run_query pool sql params)))"

definition skus_endpoint :: "'r pool \<Rightarrow> query \<Rightarrow> 'r outcome" where
  "skus_endpoint pool query =
     (let q = trim (or_default (query ''q'') [])
      in if length q < 1 then (Json [], [])
         else (case buildWhere query of (w, params) \<Rightarrow>
           (let id = parseInt10 (or_default (query ''tmplId'') []);
                scoped = (truthy (query ''tmplId'') \<and> finite_positive id);
                params = (if scoped then params @ [PNum id] else params);
                tmplCond = (if scoped then ''AND pp.product_tmpl_id = $'' @ show_nat (length params)
                            else []);
                likeIdx = length params + 1;
                params = params @ [PStr (''%'' @ q @ ''%'')];
                sql = ''SELECT DISTINCT COALESCE(pp.default_code, pt.default_code) AS sku, TRIM(pt.name->>'en_US') AS product_name ''
                      @ BASE_JOINS @ '' WHERE '' @ w @ '' '' @ tmplCond
                      @ '' AND ( COALESCE(pp.default_code, pt.default_code) ILIKE $'' @ show_nat likeIdx
                      @ '' OR TRIM(pt.name->>'en_US') ILIKE $'' @ show_nat likeIdx
                      @ '' ) ORDER BY sku LIMIT 20''
            in run_query pool sql params)))"

section \<open>Auxiliary notions for the proofs\<close>

definition no_digit_head :: "string \<Rightarrow> bool" where
  "no_digit_head b = (case b of [] \<Rightarrow> True | c # _ \<Rightarrow> \<not> is_digit c)"

text \<open>The placeholders of all conjuncts collected so far, in order.\<close>

definition referenced :: "builder \<Rightarrow> nat list" where
  "referenced b = concat (map placeholders (fst b))"

text \<open>
  A block extends the builder when it keeps what is there and the placeholders it adds
  are the indices of the parameters it adds, in order.
\<close>

definition extends :: "builder \<Rightarrow> builder \<Rightarrow> bool" where
  "extends b b' = (\<exists>cs ext. fst b' = fst b @ cs \<and> snd b' = snd b @ ext \<and> length cs \<le> 1 \<and>
     concat (map placeholders cs) = [Suc (length (snd b))..<Suc (length (snd b) + length ext)])"

text \<open>A block grows the builder when it only appends to the two arrays.\<close>

definition grows :: "builder \<Rightarrow> builder \<Rightarrow> bool" where
  "grows b b' = (\<exists>cs ext. fst b' = fst b @ cs \<and> snd b' = snd b @ ext)"

definition covers :: "builder \<Rightarrow> bool" where
  "covers b = (referenced b = [1..<Suc (length (snd b))])"

definition covers_twice :: "param \<Rightarrow> builder \<Rightarrow> bool" where
  "covers_twice v b = (\<exists>k. 1 \<le> k \<and> k \<le> length (snd b) \<and> snd b ! (k - 1) = v \<and>
     referenced b = [1..<Suc k] @ [k..<Suc (length (snd b))])"

section \<open>Digits, scanning and the builder's blocks\<close>

lemma lt10_cases: "d < (10::nat) \<Longrightarrow> d = 0 \<or> d = 1 \<or> d = 2 \<or> d = 3 \<or> d = 4 \<or> d = 5 \<or> d = 6 \<or> d = 7 \<or> d = 8 \<or> d = 9"
  by arith

lemma is_digit_digit_char: "d < 10 \<Longrightarrow> is_digit (digit_char d)"
  using lt10_cases [of d] by (auto simp: is_digit_def digit_char_def)

lemma digit_val_digit_char: "d < 10 \<Longrightarrow> digit_val (digit_char d) = d"
  using lt10_cases [of d] by (auto simp: digit_val_def digit_char_def)

lemma is_digit_not_dollar: "is_digit c \<Longrightarrow> c \<noteq> CHR ''$''"
  by (auto simp: is_digit_def)

lemma show_nat_digits: "\<forall>c \<in> set (show_nat n). is_digit c"
proof (induction n rule: show_nat.induct)
  case (1 n)
  show ?case
  proof (cases "n < 10")
    case True
    then show ?thesis by (subst show_nat.simps) (simp add: is_digit_digit_char)
  next
    case False
    with 1 show ?thesis by (subst show_nat.simps) (simp add: is_digit_digit_char)
  qed
qed

lemma show_nat_nonempty: "show_nat n \<noteq> []"
  by (subst show_nat.simps) simp

lemma parse_nat_snoc: "parse_nat (ds @ [c]) = 10 * parse_nat ds + digit_val c"
  by (simp add: parse_nat_def)

lemma parse_show_nat: "parse_nat (show_nat n) = n"
proof (induction n rule: show_nat.induct)
  case (1 n)
  show ?case
  proof (cases "n < 10")
    case True
    then show ?thesis by (subst show_nat.simps) (simp add: parse_nat_def digit_val_digit_char)
  next
    case False
    with 1 show ?thesis
      by (subst show_nat.simps) (simp add: parse_nat_snoc digit_val_digit_char)
  qed
qed


lemma takeWhile_digits_append:
  "no_digit_head b \<Longrightarrow> takeWhile is_digit (a @ b) = takeWhile is_digit a"
  by (induction a) (auto simp: no_digit_head_def split: list.splits)

lemma placeholders_append:
  "no_digit_head b \<Longrightarrow> placeholders (a @ b) = placeholders a @ placeholders b"
  by (induction a) (auto simp: takeWhile_digits_append)

lemma placeholders_no_dollar: "CHR ''$'' \<notin> set a \<Longrightarrow> placeholders a = []"
  by (induction a) auto

lemma placeholders_skip: "CHR ''$'' \<notin> set a \<Longrightarrow> placeholders (a @ b) = placeholders b"
  by (induction a) auto

lemma placeholders_show_nat: "placeholders (show_nat n) = []"
  using show_nat_digits [of n] by (intro placeholders_no_dollar) (auto dest: is_digit_not_dollar)

lemma takeWhile_show_nat: "takeWhile is_digit (show_nat n) = show_nat n"
  using show_nat_digits [of n] by (simp add: takeWhile_eq_all_conv)

lemma placeholders_dollar:
  "no_digit_head b \<Longrightarrow> placeholders (CHR ''$'' # show_nat n @ b) = n # placeholders b"
  by (simp add: takeWhile_digits_append takeWhile_show_nat show_nat_nonempty parse_show_nat
      placeholders_append placeholders_show_nat)

lemma placeholders_join:
  "placeholders (join '' AND '' conds) = concat (map placeholders conds)"
proof (induction "'' AND ''" conds rule: join.induct)
  case 1
  then show ?case by simp
next
  case (2 x)
  then show ?case by simp
next
  case (3 x y ys)
  have "placeholders (x @ '' AND '' @ join '' AND '' (y # ys))
        = placeholders x @ placeholders ('' AND '' @ join '' AND '' (y # ys))"
    by (rule placeholders_append) (simp add: no_digit_head_def is_digit_def)
  also have "placeholders ('' AND '' @ join '' AND '' (y # ys)) = placeholders (join '' AND '' (y # ys))"
    by (rule placeholders_skip) simp
  finally show ?case using 3 by simp
qed

lemma placeholders_in_list:
  "no_digit_head b \<Longrightarrow>
   placeholders (join '', '' (map (\<lambda>i. ''$'' @ show_nat (f i)) js) @ b) = map f js @ placeholders b"
proof (induction js)
  case Nil
  then show ?case by simp
next
  case (Cons j js)
  show ?case
  proof (cases js)
    case Nil
    with Cons.prems show ?thesis by (simp add: placeholders_dollar del: placeholders.simps)
  next
    case (Cons k ks)
    have nd: "no_digit_head ('', '' @ r)" for r
      by (simp add: no_digit_head_def is_digit_def)
    have "placeholders (join '', '' (map (\<lambda>i. ''$'' @ show_nat (f i)) (j # js)) @ b)
          = placeholders (CHR ''$'' # show_nat (f j) @ ('', '' @ (join '', '' (map (\<lambda>i. ''$'' @ show_nat (f i)) js) @ b)))"
      using Cons by (simp del: placeholders.simps)
    also have "\<dots> = f j # placeholders ('', '' @ (join '', '' (map (\<lambda>i. ''$'' @ show_nat (f i)) js) @ b))"
      by (rule placeholders_dollar) (rule nd)
    also have "placeholders ('', '' @ (join '', '' (map (\<lambda>i. ''$'' @ show_nat (f i)) js) @ b))
          = placeholders (join '', '' (map (\<lambda>i. ''$'' @ show_nat (f i)) js) @ b)"
      by (rule placeholders_skip) simp
    finally show ?thesis using Cons.IH [OF Cons.prems] by simp
  qed
qed

lemma placeholders_in_placeholders:
  "no_digit_head b \<Longrightarrow>
   placeholders (in_placeholders len k @ b) = [Suc len..<Suc len + k] @ placeholders b"
proof -
  assume b: "no_digit_head b"
  have "map (\<lambda>i. len + 1 + i) [0..<k] = [Suc len..<Suc len + k]"
    by (induction k) auto
  with placeholders_in_list [OF b, of "\<lambda>i. len + 1 + i" "[0..<k]"] show ?thesis
    by (simp add: in_placeholders_def)
qed


lemma placeholders_other: "c \<noteq> CHR ''$'' \<Longrightarrow> placeholders (c # cs) = placeholders cs"
  by simp

lemma placeholders_show_nat_append: "placeholders (show_nat n @ b) = placeholders b"
  using show_nat_digits [of n] by (intro placeholders_skip) (auto dest: is_digit_not_dollar)

lemma placeholders_dollar_end: "placeholders (CHR ''$'' # show_nat n) = [n]"
  using placeholders_dollar [of "[]" n] by (simp add: no_digit_head_def del: placeholders.simps(2))

lemmas ph_simps = placeholders_other placeholders_show_nat_append placeholders_dollar_end
  placeholders_dollar placeholders_in_placeholders no_digit_head_def is_digit_def

lemma extends_date_from: "extends b (date_from q b)"
  by (cases b) (simp add: extends_def date_from_def Let_def ph_simps del: placeholders.simps(2))

lemma extends_date_to: "extends b (date_to q b)"
  by (cases b) (simp add: extends_def date_to_def Let_def ph_simps del: placeholders.simps(2))

lemma extends_category_level: "extends b (category_level n f b)"
  by (cases b) (simp add: extends_def category_level_def Let_def ph_simps del: placeholders.simps(2))

lemma extends_search_absent: "\<not> truthy (q ''search'') \<Longrightarrow> extends b (search_text q b)"
  by (cases b) (simp add: extends_def search_text_def)

lemma extends_skus: "extends b (skus q b)"
  by (cases b) (simp add: extends_def skus_def Let_def ph_simps del: placeholders.simps(2) upt_Suc)

lemma extends_productTmplIds: "extends b (productTmplIds q b)"
  by (cases b) (simp add: extends_def productTmplIds_def Let_def ph_simps del: placeholders.simps(2) upt_Suc)

lemma upt_extend: "i \<le> Suc n \<Longrightarrow> [i..<Suc n] @ [Suc n..<Suc (n + m)] = [i..<Suc (n + m)]"
  using upt_add_eq_append [of i "Suc n" m] by (simp del: upt_Suc)

lemma covers_extends: "covers b \<Longrightarrow> extends b b' \<Longrightarrow> covers b'"
  by (auto simp: covers_def extends_def referenced_def upt_extend simp del: upt_Suc)

lemma covers_twice_extends: "covers_twice v b \<Longrightarrow> extends b b' \<Longrightarrow> covers_twice v b'"
  unfolding covers_twice_def extends_def referenced_def
  apply (elim exE conjE)
  subgoal for k cs ext
    apply (rule exI [of _ k])
    apply (simp add: nth_append upt_extend del: upt_Suc)
    apply arith
    done
  done

lemma covers_init: "covers init"
  by (simp add: covers_def referenced_def init_def placeholders_no_dollar)

lemma search_text_twice:
  "truthy (q ''search'') \<Longrightarrow> covers b \<Longrightarrow>
   covers_twice (PStr (''%'' @ or_default (q ''search'') [] @ ''%'')) (search_text q b)"
  apply (cases b)
  apply (simp add: covers_def covers_twice_def referenced_def search_text_def Let_def del: upt_Suc placeholders.simps(2))
  subgoal for conds params
    apply (rule exI [of _ "Suc (length params)"])
    apply (simp add: ph_simps del: placeholders.simps(2))
    done
  done

lemma covers_before_search:
  "covers (category_level 3 (q ''catL3'') (category_level 2 (q ''catL2'')
     (category_level 1 (q ''catL1'') (date_to q (date_from q init)))))"
  by (intro covers_extends [OF _ extends_category_level] covers_extends [OF _ extends_date_to]
      covers_extends [OF _ extends_date_from] covers_init)

lemma buildConds_covers:
  "\<not> truthy (q ''search'') \<Longrightarrow> covers (buildConds q)"
  unfolding buildConds_def
  by (intro covers_extends [OF _ extends_productTmplIds] covers_extends [OF _ extends_skus]
      covers_extends [OF _ extends_search_absent] covers_before_search)

lemma buildConds_covers_twice:
  "truthy (q ''search'') \<Longrightarrow>
   covers_twice (PStr (''%'' @ or_default (q ''search'') [] @ ''%'')) (buildConds q)"
  unfolding buildConds_def
  by (intro covers_twice_extends [OF _ extends_productTmplIds] covers_twice_extends [OF _ extends_skus]
      search_text_twice covers_before_search)

lemma buildWhere_referenced:
  "placeholders (fst (buildWhere q)) = referenced (buildConds q)"
  by (simp add: buildWhere_def referenced_def placeholders_join split: prod.splits)

lemma buildWhere_params: "snd (buildWhere q) = snd (buildConds q)"
  by (simp add: buildWhere_def split: prod.splits)

lemmas eval_simps = buildWhere_def buildConds_def init_def date_from_def date_to_def
  category_level_def search_text_def skus_def productTmplIds_def skuList_def ids_def Let_def
  in_placeholders_def split_def starts_with_def trim_def is_space_def show_nat.simps digit_char_def
  is_digit_def parse_nat_def digit_val_def

section \<open>Placeholders and parameters\<close>

text \<open>
  Claim C1, as amended. Read left to right, the placeholders of the compiled predicate are
  \<open>$1, $2, ..., $n\<close> for the \<open>n\<close> parameters returned, \<open>$k\<close> binding the \<open>k\<close>-th
  parameter: exactly so, each index once, when \<^verbatim>\<open>search\<close> is not set. When \<^verbatim>\<open>search\<close>
  is set, the index \<open>k\<close> of its parameter \<^verbatim>\<open>%search%\<close> is referenced twice in a row
  (both sides of the \<^verbatim>\<open>OR\<close>) and every other index once, so the predicate holds
  \<open>n + 1\<close> placeholders for \<open>n\<close> parameters.
\<close>

theorem buildWhere_placeholders_match_params:
  "(\<not> truthy (q ''search'') \<longrightarrow>
      placeholders (fst (buildWhere q)) = [1..<Suc (length (snd (buildWhere q)))]) \<and>
   (truthy (q ''search'') \<longrightarrow>
      (\<exists>k. 1 \<le> k \<and> k \<le> length (snd (buildWhere q)) \<and>
           snd (buildWhere q) ! (k - 1) = PStr (''%'' @ or_default (q ''search'') [] @ ''%'') \<and>
           placeholders (fst (buildWhere q))
             = [1..<Suc k] @ [k..<Suc (length (snd (buildWhere q)))]))"
  using buildConds_covers [of q] buildConds_covers_twice [of q]
  by (simp add: buildWhere_referenced buildWhere_params covers_def covers_twice_def del: upt_Suc)

text \<open>
  The theorem at two requests: one with SKUs only, where the placeholders are 1, 2, 3, and
  one with a search text as well, where some index is referenced twice.
\<close>

theorem buildWhere_placeholders_match_params_witness:
  "\<not> truthy ([''skus'' \<mapsto> ''A1,B2''] ''search'') \<and>
   placeholders (fst (buildWhere [''skus'' \<mapsto> ''A1,B2''])) = [1, 2, 3] \<and>
   truthy ([''search'' \<mapsto> ''bolt'', ''skus'' \<mapsto> ''A1,B2''] ''search'') \<and>
   (\<exists>k. 1 \<le> k \<and> k \<le> length (snd (buildWhere [''search'' \<mapsto> ''bolt'', ''skus'' \<mapsto> ''A1,B2''])) \<and>
     placeholders (fst (buildWhere [''search'' \<mapsto> ''bolt'', ''skus'' \<mapsto> ''A1,B2'']))
       = [1..<Suc k] @ [k..<Suc (length (snd (buildWhere [''search'' \<mapsto> ''bolt'', ''skus'' \<mapsto> ''A1,B2''])))])"
proof -
  have n: "length (snd (buildWhere [''skus'' \<mapsto> ''A1,B2''])) = 3"
    by (simp add: eval_simps)
  have "placeholders (fst (buildWhere [''skus'' \<mapsto> ''A1,B2''])) = [1, 2, 3]"
    using buildWhere_placeholders_match_params [of "[''skus'' \<mapsto> ''A1,B2'']"]
    unfolding n by (simp add: upt_rec)
  then show ?thesis
    using buildWhere_placeholders_match_params [of "[''search'' \<mapsto> ''bolt'', ''skus'' \<mapsto> ''A1,B2'']"]
    by auto
qed

text \<open>
  Claim C1 as stated fails when \<^verbatim>\<open>search\<close> is set: for \<^verbatim>\<open>search=bolt\<close> there are two
  parameters and three placeholders, and \<open>$2\<close> appears twice.
\<close>

theorem search_placeholder_counterexample:
  "length (snd (buildWhere [''search'' \<mapsto> ''bolt''])) = 2 \<and>
   placeholders (fst (buildWhere [''search'' \<mapsto> ''bolt''])) = [1, 2, 2] \<and>
   length (placeholders (fst (buildWhere [''search'' \<mapsto> ''bolt''])))
     \<noteq> length (snd (buildWhere [''search'' \<mapsto> ''bolt''])) \<and>
   \<not> distinct (placeholders (fst (buildWhere [''search'' \<mapsto> ''bolt''])))"
  by (simp add: eval_simps)

section \<open>The date bounds\<close>

lemma extends_grows: "extends b b' \<Longrightarrow> grows b b'"
  by (auto simp: extends_def grows_def)

lemma grows_search_text: "grows b (search_text q b)"
  by (cases b) (simp add: grows_def search_text_def Let_def)

lemma grows_trans: "grows a b \<Longrightarrow> grows b c \<Longrightarrow> grows a c"
  by (auto simp: grows_def)

lemma grows_after_dates:
  "grows b (productTmplIds q (skus q (search_text q
     (category_level 3 f3 (category_level 2 f2 (category_level 1 f1 b))))))"
  by (intro grows_trans [OF _ extends_grows [OF extends_productTmplIds]]
      grows_trans [OF _ extends_grows [OF extends_skus]]
      grows_trans [OF _ grows_search_text]
      grows_trans [OF _ extends_grows [OF extends_category_level]]
      extends_grows [OF extends_category_level])

lemma buildConds_grows_dates: "grows (date_to q (date_from q init)) (buildConds q)"
  unfolding buildConds_def by (rule grows_after_dates)

lemma show_nat_1: "show_nat (Suc 0) = ''1''"
  by (simp add: show_nat.simps digit_char_def)

lemma show_nat_2: "show_nat (Suc (Suc 0)) = ''2''"
  by (simp add: show_nat.simps digit_char_def)

lemma dates_block:
  "date_to q (date_from q init) =
     ([''po.state IN ('purchase','done')'', ''po.date_order >= $1::date'',
       if truthy (q ''dateTo'') then ''po.date_order < $2::date''
       else ''po.date_order < '2099-01-01'' @ sq],
      PStr (or_default (q ''dateFrom'') ''2025-01'' @ ''-01'')
        # (if truthy (q ''dateTo'') then [nextMonth (or_default (q ''dateTo'') [])] else []))"
  by (simp add: date_to_def date_from_def init_def Let_def show_nat_1 show_nat_2)

lemma buildConds_dates:
  "\<exists>cs ext. buildConds q =
     ([''po.state IN ('purchase','done')'', ''po.date_order >= $1::date'',
       if truthy (q ''dateTo'') then ''po.date_order < $2::date''
       else ''po.date_order < '2099-01-01'' @ sq] @ cs,
      PStr (or_default (q ''dateFrom'') ''2025-01'' @ ''-01'')
        # (if truthy (q ''dateTo'') then [nextMonth (or_default (q ''dateTo'') [])] else []) @ ext)"
proof -
  obtain cs ext where "fst (buildConds q) = fst (date_to q (date_from q init)) @ cs"
    and "snd (buildConds q) = snd (date_to q (date_from q init)) @ ext"
    using buildConds_grows_dates [of q] unfolding grows_def by blast
  then have "buildConds q = (fst (date_to q (date_from q init)) @ cs,
      snd (date_to q (date_from q init)) @ ext)"
    by (simp add: prod_eq_iff)
  then show ?thesis unfolding dates_block by auto
qed

lemma split_acc_no_sep: "c \<notin> set s \<Longrightarrow> split_acc [c] acc s = [rev acc @ s]"
  by (induction s arbitrary: acc) (auto simp: starts_with_def)

lemma split_acc_at_sep:
  "c \<notin> set a \<Longrightarrow> split_acc [c] acc (a @ c # b) = (rev acc @ a) # split_acc [c] [] b"
  by (induction a arbitrary: acc) (auto simp: starts_with_def)

lemma is_digit_not_dash: "is_digit c \<Longrightarrow> c \<noteq> CHR ''-''"
  by (auto simp: is_digit_def)

lemma split_year_month:
  assumes "list_all is_digit ys" "list_all is_digit ms"
  shows "split ''-'' (ys @ ''-'' @ ms) = [ys, ms]"
proof -
  have a: "CHR ''-'' \<notin> set ys" and b: "CHR ''-'' \<notin> set ms"
    using assms by (auto simp: list_all_iff dest: is_digit_not_dash)
  show ?thesis
    using split_acc_at_sep [OF a, of "[]" ms] split_acc_no_sep [OF b, of "[]"]
    by (simp add: split_def)
qed

lemma padStart2_01: "padStart2 (show_nat (Suc 0)) = ''01''"
  by (simp add: padStart2_def show_nat_1)

lemma nextMonth_following:
  assumes "length ys = 4" "list_all is_digit ys" "length ms = 2" "list_all is_digit ms"
  shows "nextMonth (ys @ ''-'' @ ms) = PStr (show_date (following_month (parse_nat ys) (parse_nat ms)))"
proof -
  have sd: "small_digits ys" "small_digits ms"
    using assms by (auto simp: small_digits_def)
  show ?thesis
    using sd by (simp add: nextMonth_def split_year_month [OF assms(2,4)] following_month_def Let_def
        padStart2_01 del: append.simps)
qed


text \<open>
  Claim C5. When \<^verbatim>\<open>dateTo\<close> is a four-digit year, a dash and a two-digit month from 01
  to 12, the third conjunct is the strict bound \<^verbatim>\<open>po.date_order < $2::date\<close> and the
  second parameter is the first day of the following month (after December, 1 January of
  the next year), the year written as a number. When \<^verbatim>\<open>dateTo\<close> is absent or empty the
  third conjunct is the constant bound \<^verbatim>\<open>po.date_order < '2099-01-01'\<close>, which takes
  no parameter and which every date before 2099 satisfies.
\<close>

theorem dateTo_upper_bound:
  "(q ''dateTo'' = Some (ys @ ''-'' @ ms) \<and> length ys = 4 \<and> list_all is_digit ys \<and>
      length ms = 2 \<and> list_all is_digit ms \<and> 1 \<le> parse_nat ms \<and> parse_nat ms \<le> 12 \<longrightarrow>
      fst (buildConds q) ! 2 = ''po.date_order < $2::date'' \<and>
      snd (buildConds q) ! 1
        = PStr (show_date (following_month (parse_nat ys) (parse_nat ms)))) \<and>
   (\<not> truthy (q ''dateTo'') \<longrightarrow>
      fst (buildConds q) ! 2 = ''po.date_order < '' @ sq @ show_date (2099, 1, 1) @ sq \<and>
      placeholders (fst (buildConds q) ! 2) = [] \<and>
      (\<forall>y m d. y < 2099 \<longrightarrow> date_less (y, m, d) (2099, 1, 1)))"
proof -
  obtain cs ext where bc: "buildConds q =
     ([''po.state IN ('purchase','done')'', ''po.date_order >= $1::date'',
       if truthy (q ''dateTo'') then ''po.date_order < $2::date''
       else ''po.date_order < '2099-01-01'' @ sq] @ cs,
      PStr (or_default (q ''dateFrom'') ''2025-01'' @ ''-01'')
        # (if truthy (q ''dateTo'') then [nextMonth (or_default (q ''dateTo'') [])] else []) @ ext)"
    using buildConds_dates [of q] by blast
  have given: "fst (buildConds q) ! 2 = ''po.date_order < $2::date'' \<and>
      snd (buildConds q) ! 1 = PStr (show_date (following_month (parse_nat ys) (parse_nat ms)))"
    if "q ''dateTo'' = Some (ys @ ''-'' @ ms)" "length ys = 4" "list_all is_digit ys"
      "length ms = 2" "list_all is_digit ms"
  proof -
    have "truthy (q ''dateTo'')" and "or_default (q ''dateTo'') [] = ys @ ''-'' @ ms"
      using that(1) by simp_all
    then show ?thesis
      unfolding bc using nextMonth_following [OF that(2-5)] by simp
  qed
  have absent: "fst (buildConds q) ! 2 = ''po.date_order < '' @ sq @ show_date (2099, 1, 1) @ sq \<and>
      placeholders (fst (buildConds q) ! 2) = []"
    if "\<not> truthy (q ''dateTo'')"
    unfolding bc using that by (simp add: show_nat.simps digit_char_def padStart2_def)
  show ?thesis
    using given absent by auto
qed

text \<open>The theorem at December 2025, at July 2025 and at the empty request.\<close>

theorem dateTo_upper_bound_witness:
  "snd (buildConds [''dateTo'' \<mapsto> ''2025-12'']) ! 1 = PStr ''2026-01-01'' \<and>
   fst (buildConds [''dateTo'' \<mapsto> ''2025-12'']) ! 2 = ''po.date_order < $2::date'' \<and>
   snd (buildConds [''dateTo'' \<mapsto> ''2025-07'']) ! 1 = PStr ''2025-08-01'' \<and>
   \<not> truthy (Map.empty ''dateTo'') \<and>
   fst (buildConds Map.empty) ! 2 = ''po.date_order < '2099-01-01'' @ sq \<and>
   date_less (2025, 3, 14) (2099, 1, 1)"
proof -
  have d: "list_all is_digit ''2025''" "list_all is_digit ''12''" "list_all is_digit ''07''"
    by (simp_all add: is_digit_def)
  have p: "parse_nat ''2025'' = 2025" "parse_nat ''12'' = 12" "parse_nat ''07'' = 7"
    by (simp_all add: parse_nat_def digit_val_def)
  have s: "show_date (following_month 2025 12) = ''2026-01-01''"
    "show_date (following_month 2025 7) = ''2025-08-01''"
    by (simp_all add: following_month_def show_nat.simps digit_char_def padStart2_def)
  have a: "snd (buildConds [''dateTo'' \<mapsto> ''2025-12'']) ! 1 = PStr ''2026-01-01'' \<and>
      fst (buildConds [''dateTo'' \<mapsto> ''2025-12'']) ! 2 = ''po.date_order < $2::date''"
    using dateTo_upper_bound [of "[''dateTo'' \<mapsto> ''2025-12'']" "''2025''" "''12''"] d p s
    by simp
  have b: "snd (buildConds [''dateTo'' \<mapsto> ''2025-07'']) ! 1 = PStr ''2025-08-01''"
    using dateTo_upper_bound [of "[''dateTo'' \<mapsto> ''2025-07'']" "''2025''" "''07''"] d p s
    by simp
  have c: "fst (buildConds Map.empty) ! 2 = ''po.date_order < '2099-01-01'' @ sq \<and>
      date_less (2025, 3, 14) (2099, 1, 1)"
    using dateTo_upper_bound [of Map.empty "[]" "[]"] by (simp add: show_nat.simps digit_char_def padStart2_def)
  show ?thesis using a b c by simp
qed

section \<open>Which conjuncts are present\<close>

lemma category_level_conds:
  "length (fst (category_level n f b)) = length (fst b) + (if truthy f then 1 else 0)"
  by (cases b) (simp add: category_level_def Let_def)

lemma search_text_conds:
  "length (fst (search_text q b)) = length (fst b) + (if truthy (q ''search'') then 1 else 0)"
  by (cases b) (simp add: search_text_def Let_def)

lemma skus_conds:
  "length (fst (skus q b))
     = length (fst b) + (if truthy (q ''skus'') \<and> skuList q \<noteq> [] then 1 else 0)"
  by (cases b) (simp add: skus_def)

lemma productTmplIds_conds:
  "length (fst (productTmplIds q b))
     = length (fst b) + (if truthy (q ''productTmplIds'') \<and> ids q \<noteq> [] then 1 else 0)"
  by (cases b) (simp add: productTmplIds_def)

lemma dates_block_conds: "length (fst (date_to q (date_from q init))) = 3"
  by (simp add: dates_block)

lemma buildConds_length:
  "length (fst (buildConds q)) =
     3 + (if truthy (q ''catL1'') then 1 else 0) + (if truthy (q ''catL2'') then 1 else 0)
       + (if truthy (q ''catL3'') then 1 else 0) + (if truthy (q ''search'') then 1 else 0)
       + (if truthy (q ''skus'') \<and> skuList q \<noteq> [] then 1 else 0)
       + (if truthy (q ''productTmplIds'') \<and> ids q \<noteq> [] then 1 else 0)"
  unfolding buildConds_def
  by (simp only: productTmplIds_conds skus_conds search_text_conds category_level_conds
      dates_block_conds)

lemma skus_in_conjunct:
  "truthy (q ''skus'') \<Longrightarrow> skuList q \<noteq> [] \<Longrightarrow>
   \<exists>n. (''COALESCE(pp.default_code,pt.default_code) IN (''
          @ in_placeholders n (length (skuList q)) @ '')'') \<in> set (fst (skus q b)) \<and>
       take (length (skuList q)) (drop n (snd (skus q b))) = map PStr (skuList q)"
  by (cases b) (auto simp: skus_def intro!: exI [of _ "length (snd b)"])

lemma grows_in_conjunct:
  assumes "grows b b'" "c \<in> set (fst b)" "take k (drop n (snd b)) = vs" "length vs = k"
  shows "c \<in> set (fst b') \<and> take k (drop n (snd b')) = vs"
proof -
  obtain cs ext where b': "fst b' = fst b @ cs" "snd b' = snd b @ ext"
    using assms(1) unfolding grows_def by blast
  have "take k (drop n (snd b @ ext)) = take k (drop n (snd b))"
  proof (cases "k = 0")
    case True
    then show ?thesis by simp
  next
    case False
    have "n + k \<le> length (snd b)"
    proof (rule ccontr)
      assume "\<not> n + k \<le> length (snd b)"
      then have "length (take k (drop n (snd b))) < k" using False by simp
      with assms(3,4) show False by simp
    qed
    then show ?thesis by simp
  qed
  with assms b' show ?thesis by simp
qed

lemma buildConds_skus_conjunct:
  assumes "truthy (q ''skus'')" "skuList q \<noteq> []"
  shows "\<exists>n. (''COALESCE(pp.default_code,pt.default_code) IN (''
          @ in_placeholders n (length (skuList q)) @ '')'') \<in> set (fst (buildConds q)) \<and>
       take (length (skuList q)) (drop n (snd (buildConds q))) = map PStr (skuList q)"
proof -
  let ?b = "search_text q (category_level 3 (q ''catL3'') (category_level 2 (q ''catL2'')
     (category_level 1 (q ''catL1'') (date_to q (date_from q init)))))"
  obtain n where n: "(''COALESCE(pp.default_code,pt.default_code) IN (''
          @ in_placeholders n (length (skuList q)) @ '')'') \<in> set (fst (skus q ?b))"
      "take (length (skuList q)) (drop n (snd (skus q ?b))) = map PStr (skuList q)"
    using skus_in_conjunct [OF assms, of ?b] by blast
  have g: "grows (skus q ?b) (buildConds q)"
    unfolding buildConds_def by (rule extends_grows [OF extends_productTmplIds])
  show ?thesis
    using grows_in_conjunct [OF g n(1) n(2)] by auto
qed

lemma buildConds_tmpl_conjunct:
  assumes "truthy (q ''productTmplIds'')" "ids q \<noteq> []"
  shows "\<exists>n. last (fst (buildConds q)) = ''pp.product_tmpl_id IN (''
          @ in_placeholders n (length (ids q)) @ '')'' \<and>
       drop n (snd (buildConds q)) = map PNum (ids q)"
proof -
  let ?b = "skus q (search_text q (category_level 3 (q ''catL3'') (category_level 2 (q ''catL2'')
     (category_level 1 (q ''catL1'') (date_to q (date_from q init))))))"
  have "buildConds q = productTmplIds q ?b"
    by (simp add: buildConds_def)
  then show ?thesis
    using assms by (cases ?b) (auto simp: productTmplIds_def intro!: exI [of _ "length (snd ?b)"])
qed

text \<open>
  Claim C9, as amended. The conjuncts are joined with \<^verbatim>\<open>AND\<close>. Three are always
  present, first: the order-state restriction, the lower date bound on \<open>$1\<close>, and an
  upper date bound, which is the bound on \<open>$2\<close> when \<^verbatim>\<open>dateTo\<close> is given and the constant
  \<^verbatim>\<open>po.date_order < '2099-01-01'\<close> when it is absent or empty. Each of \<^verbatim>\<open>catL1\<close>,
  \<^verbatim>\<open>catL2\<close>, \<^verbatim>\<open>catL3\<close> and \<^verbatim>\<open>search\<close> adds one conjunct when set and none when
  absent or empty; \<^verbatim>\<open>skus\<close> and \<^verbatim>\<open>productTmplIds\<close> add one \<^verbatim>\<open>IN\<close> conjunct each,
  over one placeholder per kept value, when at least one value is kept, and none otherwise.
\<close>

theorem buildWhere_conjuncts:
  "fst (buildWhere q) = join '' AND '' (fst (buildConds q)) \<and>
   snd (buildWhere q) = snd (buildConds q) \<and>
   length (fst (buildConds q)) =
     3 + (if truthy (q ''catL1'') then 1 else 0) + (if truthy (q ''catL2'') then 1 else 0)
       + (if truthy (q ''catL3'') then 1 else 0) + (if truthy (q ''search'') then 1 else 0)
       + (if truthy (q ''skus'') \<and> skuList q \<noteq> [] then 1 else 0)
       + (if truthy (q ''productTmplIds'') \<and> ids q \<noteq> [] then 1 else 0) \<and>
   fst (buildConds q) ! 0 = ''po.state IN ('purchase','done')'' \<and>
   fst (buildConds q) ! 1 = ''po.date_order >= $1::date'' \<and>
   snd (buildConds q) ! 0 = PStr (or_default (q ''dateFrom'') ''2025-01'' @ ''-01'') \<and>
   fst (buildConds q) ! 2 = (if truthy (q ''dateTo'') then ''po.date_order < $2::date''
                              else ''po.date_order < '2099-01-01'' @ sq) \<and>
   (truthy (q ''skus'') \<and> skuList q \<noteq> [] \<longrightarrow>
      (\<exists>n. (''COALESCE(pp.default_code,pt.default_code) IN (''
              @ in_placeholders n (length (skuList q)) @ '')'') \<in> set (fst (buildConds q)) \<and>
           take (length (skuList q)) (drop n (snd (buildConds q))) = map PStr (skuList q))) \<and>
   (truthy (q ''productTmplIds'') \<and> ids q \<noteq> [] \<longrightarrow>
      (\<exists>n. last (fst (buildConds q)) = ''pp.product_tmpl_id IN (''
              @ in_placeholders n (length (ids q)) @ '')'' \<and>
           drop n (snd (buildConds q)) = map PNum (ids q)))"
proof -
  obtain cs ext where bc: "buildConds q =
     ([''po.state IN ('purchase','done')'', ''po.date_order >= $1::date'',
       if truthy (q ''dateTo'') then ''po.date_order < $2::date''
       else ''po.date_order < '2099-01-01'' @ sq] @ cs,
      PStr (or_default (q ''dateFrom'') ''2025-01'' @ ''-01'')
        # (if truthy (q ''dateTo'') then [nextMonth (or_default (q ''dateTo'') [])] else []) @ ext)"
    using buildConds_dates [of q] by blast
  have heads: "fst (buildConds q) ! 0 = ''po.state IN ('purchase','done')''"
    "fst (buildConds q) ! 1 = ''po.date_order >= $1::date''"
    "snd (buildConds q) ! 0 = PStr (or_default (q ''dateFrom'') ''2025-01'' @ ''-01'')"
    "fst (buildConds q) ! 2 = (if truthy (q ''dateTo'') then ''po.date_order < $2::date''
                              else ''po.date_order < '2099-01-01'' @ sq)"
    unfolding bc by simp_all
  have w: "fst (buildWhere q) = join '' AND '' (fst (buildConds q))"
    by (simp add: buildWhere_def split: prod.splits)
  show ?thesis
    using w buildWhere_params [of q] buildConds_length [of q] heads
      buildConds_skus_conjunct [of q] buildConds_tmpl_conjunct [of q]
    by blast
qed

text \<open>
  The theorem at a request with a category, two SKUs and a template list of which one
  token is a positive integer: six conjuncts.
\<close>

theorem buildWhere_conjuncts_witness:
  "truthy ([''catL1'' \<mapsto> ''Raw'', ''skus'' \<mapsto> ''A1,B2'', ''productTmplIds'' \<mapsto> ''7,x''] ''skus'') \<and>
   skuList [''catL1'' \<mapsto> ''Raw'', ''skus'' \<mapsto> ''A1,B2'', ''productTmplIds'' \<mapsto> ''7,x''] \<noteq> [] \<and>
   truthy ([''catL1'' \<mapsto> ''Raw'', ''skus'' \<mapsto> ''A1,B2'', ''productTmplIds'' \<mapsto> ''7,x''] ''productTmplIds'') \<and>
   ids [''catL1'' \<mapsto> ''Raw'', ''skus'' \<mapsto> ''A1,B2'', ''productTmplIds'' \<mapsto> ''7,x''] \<noteq> [] \<and>
   length (fst (buildConds [''catL1'' \<mapsto> ''Raw'', ''skus'' \<mapsto> ''A1,B2'', ''productTmplIds'' \<mapsto> ''7,x''])) = 6 \<and>
   (\<exists>n. (''COALESCE(pp.default_code,pt.default_code) IN ('' @ in_placeholders n 2 @ '')'')
          \<in> set (fst (buildConds [''catL1'' \<mapsto> ''Raw'', ''skus'' \<mapsto> ''A1,B2'', ''productTmplIds'' \<mapsto> ''7,x''])) \<and>
        take 2 (drop n (snd (buildConds [''catL1'' \<mapsto> ''Raw'', ''skus'' \<mapsto> ''A1,B2'', ''productTmplIds'' \<mapsto> ''7,x''])))
          = [PStr ''A1'', PStr ''B2'']) \<and>
   (\<exists>n. last (fst (buildConds [''catL1'' \<mapsto> ''Raw'', ''skus'' \<mapsto> ''A1,B2'', ''productTmplIds'' \<mapsto> ''7,x'']))
          = ''pp.product_tmpl_id IN ('' @ in_placeholders n 1 @ '')'' \<and>
        drop n (snd (buildConds [''catL1'' \<mapsto> ''Raw'', ''skus'' \<mapsto> ''A1,B2'', ''productTmplIds'' \<mapsto> ''7,x'']))
          = [PNum (Num 7)])"
proof -
  let ?q = "[''catL1'' \<mapsto> ''Raw'', ''skus'' \<mapsto> ''A1,B2'', ''productTmplIds'' \<mapsto> ''7,x'']"
  have sk: "skuList ?q = [''A1'', ''B2'']"
    by (simp add: skuList_def split_def starts_with_def trim_def is_space_def)
  have id: "ids ?q = [Num 7]"
    by (simp add: ids_def split_def starts_with_def trim_def trim_start_def is_space_def
        parseInt10_def parseInt_sign_def parse_radix_def radix_digit_def hex_digit_val_def
        js_negate_def to_double_def round_double_def Let_def)
  show ?thesis
    using buildWhere_conjuncts [of ?q] by (simp add: sk id numeral_2_eq_2)
qed

text \<open>
  Claim C9 as stated fails for \<^verbatim>\<open>dateTo\<close>: with no field set at all, the absent
  \<^verbatim>\<open>dateTo\<close> still contributes a conjunct, the constant upper bound, next to the two
  conjuncts the claim names as always present.
\<close>

theorem absent_dateTo_conjunct_counterexample:
  "\<not> truthy (Map.empty ''dateTo'') \<and>
   fst (date_from Map.empty init)
     = [''po.state IN ('purchase','done')'', ''po.date_order >= $1::date''] \<and>
   fst (date_to Map.empty (date_from Map.empty init))
     = [''po.state IN ('purchase','done')'', ''po.date_order >= $1::date'',
        ''po.date_order < '2099-01-01'' @ sq] \<and>
   fst (buildConds Map.empty)
     = [''po.state IN ('purchase','done')'', ''po.date_order >= $1::date'',
        ''po.date_order < '2099-01-01'' @ sq] \<and>
   fst (buildWhere Map.empty)
     = ''po.state IN ('purchase','done') AND po.date_order >= $1::date AND po.date_order < '2099-01-01'' @ sq"
  by (simp add: eval_simps)

section \<open>Category filters and short paths\<close>

lemma category_level_adds:
  assumes "truthy f"
  shows "category_cond n (Suc (length (snd b))) \<in> set (fst (category_level n f b)) \<and>
         Suc (length (snd b)) \<le> length (snd (category_level n f b)) \<and>
         snd (category_level n f b) ! length (snd b) = PStr (or_default f [])"
  using assms by (cases b) (simp add: category_level_def category_cond_def Let_def)

lemma grows_keeps:
  assumes "grows b b'" "c \<in> set (fst b)" "k \<le> length (snd b)" "1 \<le> k" "snd b ! (k - 1) = v"
  shows "c \<in> set (fst b') \<and> k \<le> length (snd b') \<and> snd b' ! (k - 1) = v"
proof -
  obtain cs ext where "fst b' = fst b @ cs" "snd b' = snd b @ ext"
    using assms(1) unfolding grows_def by blast
  with assms(2-5) show ?thesis
    by (auto simp: nth_append)
qed

lemma grows_category_level: "grows b (category_level n f b)"
  by (rule extends_grows [OF extends_category_level])

lemma grows_tail: "grows b (productTmplIds q (skus q (search_text q b)))"
  by (intro grows_trans [OF _ extends_grows [OF extends_productTmplIds]]
      grows_trans [OF _ extends_grows [OF extends_skus]] grows_search_text)

lemma category_conjunct_in_buildConds:
  assumes "n = 1 \<or> n = 2 \<or> n = 3" "truthy (q (''catL'' @ show_nat n))"
  shows "\<exists>k. 1 \<le> k \<and> k \<le> length (snd (buildConds q)) \<and>
           category_cond n k \<in> set (fst (buildConds q)) \<and>
           snd (buildConds q) ! (k - 1) = PStr (or_default (q (''catL'' @ show_nat n)) [])"
proof -
  let ?d = "date_to q (date_from q init)"
  let ?b1 = "category_level 1 (q ''catL1'') ?d"
  let ?b2 = "category_level 2 (q ''catL2'') ?b1"
  let ?b3 = "category_level 3 (q ''catL3'') ?b2"
  have names: "show_nat (Suc 0) = ''1''" "show_nat 2 = ''2''" "show_nat 3 = ''3''"
    by (simp_all add: show_nat.simps digit_char_def)
  have bc: "buildConds q = productTmplIds q (skus q (search_text q ?b3))"
    by (simp add: buildConds_def)
  have g3: "grows ?b3 (buildConds q)"
    unfolding bc by (rule grows_tail)
  have g2: "grows ?b2 (buildConds q)"
    by (rule grows_trans [OF grows_category_level g3])
  have g1: "grows ?b1 (buildConds q)"
    by (rule grows_trans [OF grows_category_level g2])
  have step: "\<exists>k. 1 \<le> k \<and> k \<le> length (snd (buildConds q)) \<and>
           category_cond m k \<in> set (fst (buildConds q)) \<and>
           snd (buildConds q) ! (k - 1) = PStr (or_default f [])"
    if "truthy f" "grows (category_level m f b) (buildConds q)" for m f b
  proof -
    have a: "category_cond m (Suc (length (snd b))) \<in> set (fst (category_level m f b))"
      "Suc (length (snd b)) \<le> length (snd (category_level m f b))"
      "snd (category_level m f b) ! (Suc (length (snd b)) - 1) = PStr (or_default f [])"
      using category_level_adds [OF that(1), of m b] by simp_all
    show ?thesis
      using grows_keeps [OF that(2) a(1) a(2) _ a(3)] by (intro exI [of _ "Suc (length (snd b))"]) simp
  qed
  from assms(1) show ?thesis
  proof (elim disjE)
    assume "n = 1"
    with assms(2) step [OF _ g1] show ?thesis by (simp add: names)
  next
    assume "n = 2"
    with assms(2) step [OF _ g2] show ?thesis by (simp add: names)
  next
    assume "n = 3"
    with assms(2) step [OF _ g3] show ?thesis by (simp add: names)
  qed
qed

lemma short_path_segment_null:
  assumes "segments path < n"
  shows "category_segment n path = None"
proof (cases path)
  case None
  then show ?thesis
    by (simp add: category_segment_def split_part_def NULLIF_def)
next
  case (Some t)
  show ?thesis
  proof (cases "t = []")
    case True
    with Some show ?thesis
      by (simp add: category_segment_def split_part_def NULLIF_def split_def)
  next
    case False
    with Some assms show ?thesis
      by (simp add: segments_def category_segment_def split_part_def NULLIF_def Let_def)
  qed
qed

text \<open>
  Claim C2. When \<^verbatim>\<open>catL1\<close>, \<^verbatim>\<open>catL2\<close> or \<^verbatim>\<open>catL3\<close> is set, the compiled predicate has
  the conjunct comparing segment \<open>n\<close> of the category path with the parameter holding the
  field's value. On a row whose path has fewer than \<open>n\<close> segments (or no category at all)
  the segment is NULL, not the empty string, so the comparison is NULL whatever the
  parameter is, and the row is not selected.
\<close>

theorem short_path_never_matches:
  assumes "n = 1 \<or> n = 2 \<or> n = 3" "truthy (q (''catL'' @ show_nat n))" "segments path < n"
  shows "(\<exists>k. 1 \<le> k \<and> k \<le> length (snd (buildConds q)) \<and>
            category_cond n k \<in> set (fst (buildConds q)) \<and>
            snd (buildConds q) ! (k - 1) = PStr (or_default (q (''catL'' @ show_nat n)) [])) \<and>
         category_segment n path = None \<and>
         category_segment n path \<noteq> Some [] \<and>
         (\<forall>v. category_conjunct n path v = None) \<and>
         category_conjunct n path (or_default (q (''catL'' @ show_nat n)) []) \<noteq> Some True"
  using category_conjunct_in_buildConds [of n q] short_path_segment_null [of path n] assms
  by (simp add: category_conjunct_def sql_eq_def)

text \<open>
  The theorem at \<^verbatim>\<open>catL2=Raw\<close> and the one-segment path \<^verbatim>\<open>All\<close>; the two-segment path
  \<^verbatim>\<open>All / Raw\<close> does match.
\<close>

theorem short_path_never_matches_witness:
  "truthy ([''catL2'' \<mapsto> ''Raw''] (''catL'' @ show_nat 2)) \<and>
   segments (Some ''All'') < 2 \<and>
   category_conjunct 2 (Some ''All'') ''Raw'' = None \<and>
   category_conjunct 2 (Some ''All / Raw'') ''Raw'' = Some True \<and>
   category_cond 2 2 \<in> set (fst (buildConds [''catL2'' \<mapsto> ''Raw'']))"
proof -
  have n: "show_nat 2 = ''2''"
    by (simp add: show_nat.simps digit_char_def)
  have s: "segments (Some ''All'') < 2"
    by (simp add: segments_def split_def starts_with_def)
  have t: "truthy ([''catL2'' \<mapsto> ''Raw''] (''catL'' @ show_nat 2))"
    by (simp add: n)
  have m: "category_conjunct 2 (Some ''All / Raw'') ''Raw'' = Some True"
    by (simp add: category_conjunct_def category_segment_def split_part_def NULLIF_def sql_eq_def
        split_def starts_with_def)
  have c: "category_cond 2 2 \<in> set (fst (buildConds [''catL2'' \<mapsto> ''Raw'']))"
    by (simp add: eval_simps category_cond_def)
  show ?thesis
    using short_path_never_matches [of 2 "[''catL2'' \<mapsto> ''Raw'']" "Some ''All''", OF _ t s] s t m c
    by (simp add: n)
qed

section \<open>Doubles\<close>

lemma bitlen_bounds: "n \<noteq> 0 \<Longrightarrow> 2 ^ (bitlen n - 1) \<le> n \<and> n < 2 ^ bitlen n"
proof (induction n rule: bitlen.induct)
  case (1 n)
  show ?case
  proof (cases "n div 2 = 0")
    case True
    with 1(2) have "n = 1" by arith
    have "bitlen (Suc 0) = Suc 0"
      by (simp add: bitlen.simps [of "Suc 0"] bitlen.simps [of 0])
    with \<open>n = 1\<close> show ?thesis
      by simp
  next
    case False
    with 1 have ih: "2 ^ (bitlen (n div 2) - 1) \<le> n div 2" "n div 2 < 2 ^ bitlen (n div 2)"
      by simp_all
    have b: "bitlen n = Suc (bitlen (n div 2))"
      using 1(2) by (subst bitlen.simps) simp
    have pos: "bitlen (n div 2) \<noteq> 0"
      using False by (subst bitlen.simps) simp
    then have "(2::nat) ^ bitlen (n div 2) = 2 * 2 ^ (bitlen (n div 2) - 1)"
      by (cases "bitlen (n div 2)") simp_all
    with ih show ?thesis
      unfolding b by simp arith
  qed
qed


lemma round_double_overflow:
  assumes "2 ^ 1024 \<le> n"
  shows "round_double n = None"
proof -
  have n0: "n \<noteq> 0" and big: "\<not> n < 2 ^ 53"
    using assms by auto
  define e where "e = bitlen n"
  have lo: "2 ^ (e - 1) \<le> n" and hi: "n < 2 ^ e"
    using bitlen_bounds [OF n0] by (simp_all add: e_def)
  have "(2::nat) ^ 1024 < 2 ^ e"
    using assms hi by simp
  then have e: "1024 < e"
    by (rule power_less_imp_less_exp [rotated]) simp
  define u :: nat where "u = 2 ^ (e - 53)"
  have split: "(2::nat) ^ (e - 1) = 2 ^ 52 * u"
    unfolding u_def power_add [symmetric] using e by simp
  have "2 ^ 52 * u div u \<le> n div u"
    using lo unfolding split by (rule div_le_mono)
  then have q: "2 ^ 52 \<le> n div u"
    by (simp add: u_def)
  have "(2::nat) ^ 1024 \<le> 2 ^ (e - 1)"
    using e by (intro power_increasing) simp_all
  also have "\<dots> \<le> (n div u) * u"
    unfolding split using q by simp
  finally have a: "2 ^ 1024 \<le> (n div u) * u" .
  then have b: "2 ^ 1024 \<le> (n div u + 1) * u"
    by (simp add: add_mult_distrib)
  show ?thesis
    using big a b by (simp add: round_double_def Let_def e_def [symmetric] u_def [symmetric])
qed


lemma to_double_overflow: "2 ^ 1024 \<le> v \<Longrightarrow> to_double v = PosInf"
proof -
  assume a: "2 ^ 1024 \<le> v"
  then have "2 ^ 1024 \<le> nat v"
    by (simp add: le_nat_iff)
  then show ?thesis
    using a by (simp add: to_double_def round_double_overflow)
qed

lemma is_digit_cases:
  "is_digit c \<Longrightarrow> c = CHR ''0'' \<or> c = CHR ''1'' \<or> c = CHR ''2'' \<or> c = CHR ''3'' \<or> c = CHR ''4'' \<or>
     c = CHR ''5'' \<or> c = CHR ''6'' \<or> c = CHR ''7'' \<or> c = CHR ''8'' \<or> c = CHR ''9''"
  by (simp add: is_digit_def)

lemma is_digit_radix10: "is_digit c \<Longrightarrow> radix_digit 10 c = Some (digit_val c)"
  by (drule is_digit_cases, elim disjE)
    (simp_all add: radix_digit_def hex_digit_val_def digit_val_def)

lemma is_digit_plain:
  "is_digit c \<Longrightarrow>
   \<not> is_space c \<and> c \<noteq> CHR ''-'' \<and> c \<noteq> CHR ''+'' \<and> c \<noteq> CHR ''x'' \<and> c \<noteq> CHR ''X''"
  by (drule is_digit_cases, elim disjE) (simp_all add: is_space_def)

lemma parse_radix_digits:
  assumes "\<forall>c \<in> set ds. is_digit c" "ds \<noteq> []"
  shows "parse_radix 10 ds = to_double (int (parse_nat ds))"
proof -
  have t: "takeWhile (\<lambda>c. radix_digit 10 c \<noteq> None) ds = ds"
    using assms(1) by (simp add: takeWhile_eq_all_conv is_digit_radix10)
  have "foldl (\<lambda>a c. 10 * a + (case radix_digit 10 c of Some d \<Rightarrow> d | None \<Rightarrow> 0)) a ds
        = foldl (\<lambda>a c. 10 * a + digit_val c) a ds" for a
    using assms(1) by (induction ds arbitrary: a) (simp_all add: is_digit_radix10)
  then have "foldl (\<lambda>a c. 10 * a + (case radix_digit 10 c of Some d \<Rightarrow> d | None \<Rightarrow> 0)) 0 ds
        = parse_nat ds"
    by (simp add: parse_nat_def)
  then show ?thesis
    unfolding parse_radix_def Let_def t using assms(2) by simp
qed



lemma parseInt10_show_nat: "parseInt10 (show_nat p) = to_double (int p)"
proof -
  obtain c cs where s: "show_nat p = c # cs"
    using show_nat_nonempty [of p] by (cases "show_nat p") auto
  have d: "\<forall>x \<in> set (c # cs). is_digit x"
    using show_nat_digits [of p] by (simp add: s)
  then have c: "\<not> is_space c" "c \<noteq> CHR ''-''" "c \<noteq> CHR ''+''"
    using is_digit_plain [of c] by simp_all
  have "parseInt10 (c # cs) = parse_radix 10 (c # cs)"
    using c by (simp add: parseInt10_def parseInt_sign_def trim_start_def)
  also have "\<dots> = to_double (int (parse_nat (c # cs)))"
    using parse_radix_digits [OF d] by simp
  finally show ?thesis
    using parse_show_nat [of p] by (simp add: s)
qed

text \<open>
  A template id beyond the largest double is read as \<^verbatim>\<open>Infinity\<close> and dropped by the
  filter; one that is not a double is bound as the double nearest to it.
\<close>

lemma parseInt10_overflow:
  assumes "2 ^ 1024 \<le> n"
  shows "parseInt10 (show_nat n) = PosInf" "\<not> finite_positive (parseInt10 (show_nat n))"
proof -
  have "(2::int) ^ 1024 \<le> int n"
    using assms by (simp add: numeral_power_le_of_nat_cancel_iff)
  then show "parseInt10 (show_nat n) = PosInf"
    by (simp only: parseInt10_show_nat to_double_overflow)
  then show "\<not> finite_positive (parseInt10 (show_nat n))"
    by simp
qed

lemma ids_rounds_to_double:
  "ids [''productTmplIds'' \<mapsto> ''9007199254740993,7''] = [Num 9007199254740992, Num 7]"
  by (simp add: ids_def split_def starts_with_def trim_def trim_start_def is_space_def
      parseInt10_def parseInt_sign_def parse_radix_def radix_digit_def hex_digit_val_def
      to_double_def round_double_def bitlen.simps Let_def)

section \<open>KPI percentages\<close>

lemma nval_mul: "nval (numeric_mul a b) = nval a * nval b"
  by (simp add: nval_def numeric_mul_def power_add)

lemma scale_up:
  assumes "e \<le> d"
  shows "(of_int u :: rat) * 10 ^ (d - e) / 10 ^ d = of_int u / 10 ^ e"
proof -
  have "(10::rat) ^ d = 10 ^ e * 10 ^ (d - e)"
    using assms by (simp add: power_add [symmetric])
  then show ?thesis by simp
qed

lemma nval_add: "nval (numeric_add a b) = nval a + nval b"
  by (simp add: nval_def numeric_add_def Let_def add_divide_distrib scale_up)

lemma nval_foldl_add: "nval (foldl numeric_add y ys) = nval y + sum_list (map nval ys)"
  by (induction ys arbitrary: y) (simp_all add: nval_add)

lemma nval_0 [simp]: "nval numeric_0 = 0"
  by (simp add: nval_def numeric_0_def)

lemma nval_zero_iff: "nval x = 0 \<longleftrightarrow> unscaled x = 0"
  by (simp add: nval_def)

lemma nval_SUM_agg: "nval (COALESCE (SUM_agg xs) numeric_0) = sum_list (map nval (List.map_filter id xs))"
  by (cases "List.map_filter id xs") (simp_all add: SUM_agg_def COALESCE_def nval_foldl_add)

lemma products_value_sum:
  "sum_list (map nval (List.map_filter id (map (\<lambda>r. sql_times (f r) (price_unit r)) rows)))
     = value_sum f rows"
proof (induction rows)
  case Nil
  then show ?case by (simp add: value_sum_def List.map_filter_def)
next
  case (Cons r rows)
  then show ?case
    by (cases "f r"; cases "price_unit r")
      (simp_all add: value_sum_def List.map_filter_def sql_times_def nval_mul)
qed

lemma nval_summed:
  "nval (COALESCE (SUM_agg (map (\<lambda>r. sql_times (f r) (price_unit r)) rows)) numeric_0)
     = value_sum f rows"
  by (simp add: nval_SUM_agg products_value_sum)

lemma floor_half: "\<lfloor>1 / 2 :: rat\<rfloor> = 0"
  by (rule floor_unique) simp_all

lemma div_half_away_round:
  assumes "d \<noteq> 0"
  shows "div_half_away n d = round_half_away (of_int n / of_int d)"
proof -
  define x :: rat where "x = of_int n / of_int d"
  have "\<bar>x\<bar> + 1 / 2 = of_int (2 * \<bar>n\<bar> + \<bar>d\<bar>) / of_int (2 * \<bar>d\<bar>)"
    using assms by (simp add: x_def field_simps abs_divide)
  then have half: "(2 * \<bar>n\<bar> + \<bar>d\<bar>) div (2 * \<bar>d\<bar>) = \<lfloor>\<bar>x\<bar> + 1 / 2\<rfloor>"
    by (simp only: floor_divide_of_int_eq)
  have sg: "of_int (sgn n * sgn d) = sgn x"
    using assms by (auto simp: x_def sgn_if zero_less_divide_iff divide_less_0_iff)
  have "round_half_away x = sgn n * sgn d * \<lfloor>\<bar>x\<bar> + 1 / 2\<rfloor>"
  proof (cases "0 \<le> x")
    case True
    show ?thesis
    proof (cases "x = 0")
      case True
      then have "sgn n * sgn d = 0"
        using sg by simp
      then show ?thesis
        using True by (simp add: round_half_away_def floor_half)
    next
      case False
      then have "sgn x = 1"
        using True by (simp add: sgn_if)
      then have "sgn n * sgn d = 1"
        using sg by (metis of_int_eq_1_iff)
      then show ?thesis
        using True by (simp add: round_half_away_def)
    qed
  next
    case False
    then have "sgn x = - 1"
      by (simp add: sgn_if)
    then have "of_int (sgn n * sgn d) = (of_int (- 1) :: rat)"
      using sg by simp
    then have "sgn n * sgn d = - 1"
      by (simp only: of_int_eq_iff)
    then show ?thesis
      using False by (simp add: round_half_away_def)
  qed
  then show ?thesis
    by (simp add: div_half_away_def half x_def)
qed

lemma round_half_away_close: "\<bar>of_int (round_half_away x) - x\<bar> \<le> 1 / 2"
proof (cases "0 \<le> x")
  case True
  have "of_int \<lfloor>x + 1 / 2\<rfloor> \<le> x + 1 / 2" "x + 1 / 2 < of_int \<lfloor>x + 1 / 2\<rfloor> + 1"
    by linarith+
  moreover have "round_half_away x = \<lfloor>x + 1 / 2\<rfloor>"
    using True by (simp add: round_half_away_def)
  ultimately show ?thesis by linarith
next
  case False
  have "of_int \<lfloor>- x + 1 / 2\<rfloor> \<le> - x + 1 / 2" "- x + 1 / 2 < of_int \<lfloor>- x + 1 / 2\<rfloor> + 1"
    by linarith+
  moreover have "round_half_away x = - \<lfloor>- x + 1 / 2\<rfloor>"
    using False by (simp add: round_half_away_def)
  ultimately show ?thesis by linarith
qed

lemma round_at_close: "\<bar>round_at s x - x\<bar> \<le> 1 / (2 * 10 ^ s)"
proof -
  have "round_at s x - x = (of_int (round_half_away (x * 10 ^ s)) - x * 10 ^ s) / 10 ^ s"
    by (simp add: round_at_def diff_divide_distrib)
  then have "\<bar>round_at s x - x\<bar> = \<bar>of_int (round_half_away (x * 10 ^ s)) - x * 10 ^ s\<bar> / 10 ^ s"
    by (simp only: abs_divide) simp
  also have "\<dots> \<le> (1 / 2) / 10 ^ s"
    by (intro divide_right_mono round_half_away_close) simp
  finally show ?thesis by simp
qed

lemma nval_numeric_div:
  assumes "unscaled b \<noteq> 0"
  shows "nval (numeric_div a b) = round_at (select_div_scale a b) (nval a / nval b)"
proof -
  have "(of_int (unscaled a * 10 ^ (dscale b + select_div_scale a b)) :: rat)
          / of_int (unscaled b * 10 ^ dscale a)
        = nval a / nval b * 10 ^ select_div_scale a b"
    by (simp add: nval_def power_add mult_ac)
  then show ?thesis
    using assms by (simp add: numeric_div_def nval_def round_at_def div_half_away_round)
qed

lemma nval_ROUND1: "nval (ROUND1 x) = round_at 1 (nval x)"
proof -
  have "(of_int (unscaled x * 10) :: rat) / of_int (10 ^ dscale x) = nval x * 10"
    by (simp add: nval_def)
  then show ?thesis
    by (simp add: ROUND1_def nval_def round_at_def div_half_away_round)
qed

lemma select_div_scale_pos: "1 \<le> dscale a \<Longrightarrow> 1 \<le> select_div_scale a b"
  by (simp add: select_div_scale_def Let_def case_prod_beta)

lemma pct_guarded:
  "pct num den =
     Inr (if nval (COALESCE den numeric_0) = 0 then None
          else Some (ROUND1 (numeric_div (numeric_mul numeric_100 (COALESCE num numeric_0))
                               (COALESCE den numeric_0))))"
  by (cases den) (simp_all add: pct_def sql_divide_def NULLIF_0_def COALESCE_def nval_zero_iff)

lemma pct_value:
  fixes num den :: "numeric option"
  assumes "nval (COALESCE den numeric_0) \<noteq> 0"
  defines "s \<equiv> select_div_scale (numeric_mul numeric_100 (COALESCE num numeric_0))
                   (COALESCE den numeric_0)"
  shows "\<exists>p. pct num den = Inr (Some p) \<and> dscale p = 1 \<and> 1 \<le> s \<and>
           nval p = round_at 1 (round_at s
                      (100 * nval (COALESCE num numeric_0) / nval (COALESCE den numeric_0))) \<and>
           \<bar>nval p - 100 * nval (COALESCE num numeric_0) / nval (COALESCE den numeric_0)\<bar>
             \<le> 1 / 20 + 1 / (2 * 10 ^ s)"
proof -
  let ?a = "numeric_mul numeric_100 (COALESCE num numeric_0)"
  let ?b = "COALESCE den numeric_0"
  let ?x = "100 * nval (COALESCE num numeric_0) / nval ?b"
  have b: "unscaled ?b \<noteq> 0"
    using assms(1) by (simp add: nval_zero_iff)
  have a: "nval ?a = 100 * nval (COALESCE num numeric_0)"
    by (simp add: nval_mul) (simp add: nval_def numeric_100_def)
  have s: "1 \<le> s"
    unfolding s_def by (rule select_div_scale_pos) (simp add: numeric_mul_def numeric_100_def)
  have q: "nval (numeric_div ?a ?b) = round_at s ?x"
    using nval_numeric_div [OF b, of ?a] by (simp add: a s_def)
  have v: "nval (ROUND1 (numeric_div ?a ?b)) = round_at 1 (round_at s ?x)"
    by (simp add: nval_ROUND1 q)
  have "\<bar>round_at 1 (round_at s ?x) - ?x\<bar>
          \<le> \<bar>round_at 1 (round_at s ?x) - round_at s ?x\<bar> + \<bar>round_at s ?x - ?x\<bar>"
    by linarith
  also have "\<dots> \<le> 1 / 20 + 1 / (2 * 10 ^ s)"
    using round_at_close [of 1 "round_at s ?x"] round_at_close [of s ?x] by simp
  finally have c: "\<bar>round_at 1 (round_at s ?x) - ?x\<bar> \<le> 1 / 20 + 1 / (2 * 10 ^ s)" .
  show ?thesis
    using assms(1) s v c
    by (intro exI [of _ "ROUND1 (numeric_div ?a ?b)"]) (simp add: pct_guarded ROUND1_def)
qed

lemmas kpi_eval = kpis_def Let_def SUM_agg_def sql_times_def List.map_filter_def COALESCE_def
  pct_def sql_divide_def NULLIF_0_def numeric_mul_def numeric_add_def numeric_0_def
  numeric_100_def numeric_div_def ROUND1_def div_half_away_def select_div_scale_def
  weight_digit_def nbase_weight.simps frac_shift.simps

text \<open>
  Claim C3, as the specification states it, fails: the percentage is not the exact
  quotient rounded to one decimal. PostgreSQL first rounds the quotient at the scale it
  selects for the division and \<^verbatim>\<open>ROUND\<close> then rounds that value. With one line of
  200000000000000000001 ordered and 100000000000000000 received at price 1 the exact
  percentage is just below 0.05 and rounds to 0.0; the division yields
  0.05000000000000000000 at scale 20 and \<^verbatim>\<open>pct_received\<close> is 0.1.
\<close>

theorem kpis_percentage_rounded_twice_counterexample:
  "map_sum id pct_received
     (kpis [\<lparr>product_qty = Some \<lparr>unscaled = 200000000000000000001, dscale = 0\<rparr>,
             price_unit = Some \<lparr>unscaled = 1, dscale = 0\<rparr>,
             qty_received = Some \<lparr>unscaled = 100000000000000000, dscale = 0\<rparr>,
             qty_invoiced = None, month = ''2025-01''\<rparr>])
     = Inr (Some \<lparr>unscaled = 1, dscale = 1\<rparr>) \<and>
       round_at 1 (100 * value_sum qty_received
                     [\<lparr>product_qty = Some \<lparr>unscaled = 200000000000000000001, dscale = 0\<rparr>,
                       price_unit = Some \<lparr>unscaled = 1, dscale = 0\<rparr>,
                       qty_received = Some \<lparr>unscaled = 100000000000000000, dscale = 0\<rparr>,
                       qty_invoiced = None, month = ''2025-01''\<rparr>]
                   / value_sum product_qty
                     [\<lparr>product_qty = Some \<lparr>unscaled = 200000000000000000001, dscale = 0\<rparr>,
                       price_unit = Some \<lparr>unscaled = 1, dscale = 0\<rparr>,
                       qty_received = Some \<lparr>unscaled = 100000000000000000, dscale = 0\<rparr>,
                       qty_invoiced = None, month = ''2025-01''\<rparr>]) = 0"
proof -
  have "\<lfloor>(100000000000000000000 :: rat) / 200000000000000000001 + 1 / 2\<rfloor> = 0"
    by (rule floor_unique) simp_all
  then have "round_at 1 (10000000000000000000 / 200000000000000000001) = 0"
    by (simp add: round_at_def round_half_away_def)
  then show ?thesis
    by (simp add: kpi_eval value_sum_def nval_def)
qed

text \<open>
  Claim C3, amended. The KPI query never fails on the division. Its totals are the sums
  over the lines of quantity times price. \<^verbatim>\<open>pct_received\<close> and \<^verbatim>\<open>pct_invoiced\<close> are
  NULL when the summed ordered value is zero (which includes the empty data set).
  Otherwise each has one decimal and is 100 times the summed received, respectively
  invoiced, value over the summed ordered value, rounded first at the scale \<open>s\<close> of the
  division, which is at least 1, and then to one decimal; so it lies within one twentieth
  plus half a unit of the \<open>s\<close>-th decimal of the exact percentage.
\<close>

theorem kpis_percentages_at_division_scale:
  "\<exists>k. kpis rows = Inr k \<and>
     nval (total_ordered_value k) = value_sum product_qty rows \<and>
     nval (total_received_value k) = value_sum qty_received rows \<and>
     nval (total_invoiced_value k) = value_sum qty_invoiced rows \<and>
     (value_sum product_qty rows = 0 \<longrightarrow> pct_received k = None \<and> pct_invoiced k = None) \<and>
     (value_sum product_qty rows \<noteq> 0 \<longrightarrow>
        (\<exists>p s. pct_received k = Some p \<and> dscale p = 1 \<and> 1 \<le> s \<and>
           s = select_div_scale (numeric_mul numeric_100 (total_received_value k))
                 (total_ordered_value k) \<and>
           nval p = round_at 1 (round_at s
                      (100 * value_sum qty_received rows / value_sum product_qty rows)) \<and>
           \<bar>nval p - 100 * value_sum qty_received rows / value_sum product_qty rows\<bar>
             \<le> 1 / 20 + 1 / (2 * 10 ^ s)) \<and>
        (\<exists>p s. pct_invoiced k = Some p \<and> dscale p = 1 \<and> 1 \<le> s \<and>
           s = select_div_scale (numeric_mul numeric_100 (total_invoiced_value k))
                 (total_ordered_value k) \<and>
           nval p = round_at 1 (round_at s
                      (100 * value_sum qty_invoiced rows / value_sum product_qty rows)) \<and>
           \<bar>nval p - 100 * value_sum qty_invoiced rows / value_sum product_qty rows\<bar>
             \<le> 1 / 20 + 1 / (2 * 10 ^ s)))"
proof -
  let ?sum = "\<lambda>f. SUM_agg (map (\<lambda>r. sql_times (f r) (price_unit r)) rows)"
  show ?thesis
  proof (cases "value_sum product_qty rows = 0")
    case True
    then have "nval (COALESCE (?sum product_qty) numeric_0) = 0"
      by (simp add: nval_summed)
    then show ?thesis
      using True by (simp add: kpis_def Let_def pct_guarded nval_summed)
  next
    case False
    then have nz: "nval (COALESCE (?sum product_qty) numeric_0) \<noteq> 0"
      by (simp add: nval_summed)
    obtain pr where pr: "pct (?sum qty_received) (?sum product_qty) = Inr (Some pr)"
      "dscale pr = 1"
      "1 \<le> select_div_scale (numeric_mul numeric_100 (COALESCE (?sum qty_received) numeric_0))
              (COALESCE (?sum product_qty) numeric_0)"
      "nval pr = round_at 1 (round_at
          (select_div_scale (numeric_mul numeric_100 (COALESCE (?sum qty_received) numeric_0))
              (COALESCE (?sum product_qty) numeric_0))
          (100 * value_sum qty_received rows / value_sum product_qty rows))"
      "\<bar>nval pr - 100 * value_sum qty_received rows / value_sum product_qty rows\<bar>
         \<le> 1 / 20 + 1 / (2 * 10 ^
          select_div_scale (numeric_mul numeric_100 (COALESCE (?sum qty_received) numeric_0))
              (COALESCE (?sum product_qty) numeric_0))"
      using pct_value [OF nz, of "?sum qty_received"] unfolding nval_summed by blast
    obtain pinv where pinv: "pct (?sum qty_invoiced) (?sum product_qty) = Inr (Some pinv)"
      "dscale pinv = 1"
      "1 \<le> select_div_scale (numeric_mul numeric_100 (COALESCE (?sum qty_invoiced) numeric_0))
              (COALESCE (?sum product_qty) numeric_0)"
      "nval pinv = round_at 1 (round_at
          (select_div_scale (numeric_mul numeric_100 (COALESCE (?sum qty_invoiced) numeric_0))
              (COALESCE (?sum product_qty) numeric_0))
          (100 * value_sum qty_invoiced rows / value_sum product_qty rows))"
      "\<bar>nval pinv - 100 * value_sum qty_invoiced rows / value_sum product_qty rows\<bar>
         \<le> 1 / 20 + 1 / (2 * 10 ^
          select_div_scale (numeric_mul numeric_100 (COALESCE (?sum qty_invoiced) numeric_0))
              (COALESCE (?sum product_qty) numeric_0))"
      using pct_value [OF nz, of "?sum qty_invoiced"] unfolding nval_summed by blast
    show ?thesis
      using False pr pinv by (simp add: kpis_def Let_def nval_summed)
  qed
qed

text \<open>
  The theorem at two lines (10 and 20 ordered at price 5, 3 and 20 received, 1 invoiced on
  the second only), where the ordered value is 150: the percentages are 76.7 and 3.3,
  within the stated distance of 230/3 and 10/3; and at the empty data set: both NULL.
\<close>

theorem kpis_percentages_at_division_scale_witness:
  "(\<exists>k. kpis [\<lparr>product_qty = Some \<lparr>unscaled = 10, dscale = 0\<rparr>,
                 price_unit = Some \<lparr>unscaled = 5, dscale = 0\<rparr>,
                 qty_received = Some \<lparr>unscaled = 3, dscale = 0\<rparr>,
                 qty_invoiced = None, month = ''2025-01''\<rparr>,
               \<lparr>product_qty = Some \<lparr>unscaled = 20, dscale = 0\<rparr>,
                 price_unit = Some \<lparr>unscaled = 5, dscale = 0\<rparr>,
                 qty_received = Some \<lparr>unscaled = 20, dscale = 0\<rparr>,
                 qty_invoiced = Some \<lparr>unscaled = 1, dscale = 0\<rparr>, month = ''2025-02''\<rparr>] = Inr k \<and>
        nval (total_ordered_value k) = 150 \<and>
        pct_received k = Some \<lparr>unscaled = 767, dscale = 1\<rparr> \<and>
        pct_invoiced k = Some \<lparr>unscaled = 33, dscale = 1\<rparr> \<and>
        (\<exists>p s. pct_received k = Some p \<and> 1 \<le> s \<and>
               \<bar>nval p - 230 / 3\<bar> \<le> 1 / 20 + 1 / (2 * 10 ^ s)) \<and>
        (\<exists>p s. pct_invoiced k = Some p \<and> 1 \<le> s \<and>
               \<bar>nval p - 10 / 3\<bar> \<le> 1 / 20 + 1 / (2 * 10 ^ s))) \<and>
   (\<exists>k. kpis [] = Inr k \<and> nval (total_ordered_value k) = 0 \<and>
        pct_received k = None \<and> pct_invoiced k = None)"
proof -
  let ?rows = "[\<lparr>product_qty = Some \<lparr>unscaled = 10, dscale = 0\<rparr>,
                 price_unit = Some \<lparr>unscaled = 5, dscale = 0\<rparr>,
                 qty_received = Some \<lparr>unscaled = 3, dscale = 0\<rparr>,
                 qty_invoiced = None, month = ''2025-01''\<rparr>,
               \<lparr>product_qty = Some \<lparr>unscaled = 20, dscale = 0\<rparr>,
                 price_unit = Some \<lparr>unscaled = 5, dscale = 0\<rparr>,
                 qty_received = Some \<lparr>unscaled = 20, dscale = 0\<rparr>,
                 qty_invoiced = Some \<lparr>unscaled = 1, dscale = 0\<rparr>, month = ''2025-02''\<rparr>]"
  have vs: "value_sum product_qty ?rows = 150" "value_sum qty_received ?rows = 115"
    "value_sum qty_invoiced ?rows = 5"
    by (simp_all add: value_sum_def nval_def)
  obtain k where k: "kpis ?rows = Inr k" "nval (total_ordered_value k) = 150"
    "\<exists>p s. pct_received k = Some p \<and> 1 \<le> s \<and>
               \<bar>nval p - 230 / 3\<bar> \<le> 1 / 20 + 1 / (2 * 10 ^ s)"
    "\<exists>p s. pct_invoiced k = Some p \<and> 1 \<le> s \<and>
               \<bar>nval p - 10 / 3\<bar> \<le> 1 / 20 + 1 / (2 * 10 ^ s)"
    using kpis_percentages_at_division_scale [of ?rows] unfolding vs by auto
  have "kpis ?rows = Inr k \<Longrightarrow> pct_received k = Some \<lparr>unscaled = 767, dscale = 1\<rparr> \<and>
        pct_invoiced k = Some \<lparr>unscaled = 33, dscale = 1\<rparr>"
    by (auto simp: kpi_eval)
  then have a: "pct_received k = Some \<lparr>unscaled = 767, dscale = 1\<rparr>"
    "pct_invoiced k = Some \<lparr>unscaled = 33, dscale = 1\<rparr>"
    using k(1) by simp_all
  obtain e where e: "kpis [] = Inr e" "nval (total_ordered_value e) = 0"
    "pct_received e = None \<and> pct_invoiced e = None"
    using kpis_percentages_at_division_scale [of "[]"] by (auto simp: value_sum_def)
  show ?thesis
    using k a e by blast
qed

section \<open>The typeahead short-circuit\<close>

text \<open>
  Claim C8. When \<^verbatim>\<open>q\<close>, trimmed, has fewer than one character (also when it is
  missing), both typeahead handlers answer with the empty JSON list and send no query to
  the database.
\<close>

theorem typeahead_empty_query:
  assumes "length (trim (or_default (query ''q'') [])) < 1"
  shows "products pool query = (Json [], []) \<and> skus_endpoint pool query = (Json [], [])"
  using assms by (simp add: products_def skus_endpoint_def Let_def)

text \<open>The theorem at \<^verbatim>\<open>q\<close> made of blanks, with a pool that would return a row.\<close>

theorem typeahead_empty_query_witness:
  "length (trim (or_default ([''q'' \<mapsto> ''   '', ''search'' \<mapsto> ''bolt''] ''q'') [])) < 1 \<and>
   products (\<lambda>sql ps. Inr [0::nat]) [''q'' \<mapsto> ''   '', ''search'' \<mapsto> ''bolt''] = (Json [], []) \<and>
   skus_endpoint (\<lambda>sql ps. Inr [0::nat]) [''q'' \<mapsto> ''   '', ''search'' \<mapsto> ''bolt''] = (Json [], [])"
proof -
  have h: "length (trim (or_default ([''q'' \<mapsto> ''   '', ''search'' \<mapsto> ''bolt''] ''q'') [])) < 1"
    by (simp add: trim_def is_space_def)
  show ?thesis
    using h typeahead_empty_query [of "[''q'' \<mapsto> ''   '', ''search'' \<mapsto> ''bolt'']"
        "\<lambda>sql ps. Inr [0::nat]"]
    by simp
qed

text \<open>With a non-empty trimmed \<^verbatim>\<open>q\<close> each handler sends exactly one query.\<close>

lemma typeahead_sends_one_query:
  assumes "\<not> length (trim (or_default (query ''q'') [])) < 1"
  shows "length (snd (products pool query)) = 1 \<and> length (snd (skus_endpoint pool query)) = 1"
  using assms
  by (simp add: products_def skus_endpoint_def run_query_def Let_def split: prod.splits sum.splits)

section \<open>Paging and sorting parameters of the lines endpoint\<close>

lemmas parseInt_simps = parseInt_def parseInt_sign_def trim_start_def is_space_def starts_with_def
  parse_radix_def radix_digit_def hex_digit_val_def js_negate_def Let_def to_double_def
  round_double_def

text \<open>What the clamps achieve whenever \<^verbatim>\<open>parseInt\<close> reads a number.\<close>

lemma page_clamped:
  "parseInt (or_default (query ''page'') ''1'') = Num v \<Longrightarrow> page query = Num (max 1 v)"
  by (simp add: page_def js_max_def max_def)

lemma pageSize_clamped:
  "parseInt (or_default (query ''pageSize'') ''50'') = Num v \<Longrightarrow>
   pageSize query = Num (min 200 (max 10 v)) \<and> 10 \<le> min 200 (max 10 v) \<and> min 200 (max 10 v) \<le> 200"
  by (simp add: pageSize_def js_max_def js_min_def max_def min_def)

lemma page_default: "\<not> truthy (query ''page'') \<Longrightarrow> page query = Num 1"
  by (cases "query ''page''") (simp_all add: page_def parseInt_simps js_max_def)

lemma pageSize_default: "\<not> truthy (query ''pageSize'') \<Longrightarrow> pageSize query = Num 50"
  by (cases "query ''pageSize''") (simp_all add: pageSize_def parseInt_simps js_max_def js_min_def)

text \<open>
  Claim C4 fails on the code for non-numeric values. \<^verbatim>\<open>parseInt('abc')\<close> is
  \<^verbatim>\<open>NaN\<close>, and \<^verbatim>\<open>Math.max(1, NaN)\<close> is \<^verbatim>\<open>NaN\<close>: the effective page is not a
  number at least 1, the data query ends in \<^verbatim>\<open>LIMIT 50 OFFSET NaN\<close>, and the request is
  answered with status 500. The same happens for a non-numeric \<^verbatim>\<open>pageSize\<close>.
\<close>

theorem page_not_numeric_rejected:
  "page [''page'' \<mapsto> ''abc''] = NaN \<and>
   offset [''page'' \<mapsto> ''abc''] = NaN \<and>
   limit_offset [''page'' \<mapsto> ''abc''] = ''LIMIT 50 OFFSET NaN'' \<and>
   lines \<lparr>count_rows = (\<lambda>w ps. Inr 3), data_rows = (\<lambda>w ps col dir l off. Inr [1, 2, 3 :: nat])\<rparr>
     [''page'' \<mapsto> ''abc''] = Status500 \<and>
   pageSize [''pageSize'' \<mapsto> ''abc''] = NaN \<and>
   limit_offset [''pageSize'' \<mapsto> ''abc''] = ''LIMIT NaN OFFSET NaN'' \<and>
   lines \<lparr>count_rows = (\<lambda>w ps. Inr 3), data_rows = (\<lambda>w ps col dir l off. Inr [1, 2, 3 :: nat])\<rparr>
     [''pageSize'' \<mapsto> ''abc''] = Status500"
  by (simp add: page_def pageSize_def offset_def limit_offset_def lines_def parseInt_simps
      js_max_def js_min_def show_double_def sql_integer_def is_digit_def
      show_nat.simps digit_char_def split: prod.splits)

text \<open>What the handler interpolates for an allow-listed key, and the direction token.\<close>

lemma sortDir_token: "sortDir query = ''ASC'' \<or> sortDir query = ''DESC''"
  by (simp add: sortDir_def)

lemma sortDir_asc_only: "sortDir query = ''ASC'' \<longleftrightarrow> query ''sortDir'' = Some ''asc''"
  by (simp add: sortDir_def)

lemma sortCol_allow_listed:
  "map_of SORTABLE key = Some col \<Longrightarrow> sortCol (query(''sortBy'' \<mapsto> key)) = col"
  by (auto simp: sortCol_def SORTABLE_get_def SORTABLE_def split: if_splits)

lemma order_by_allow_listed:
  assumes "map_of SORTABLE key = Some col"
  shows "order_by (query(''sortBy'' \<mapsto> key, ''sortDir'' \<mapsto> ''asc''))
           = ''ORDER BY '' @ col @ '' ASC, sku DESC''"
    and "dir \<noteq> ''asc'' \<Longrightarrow> order_by (query(''sortBy'' \<mapsto> key, ''sortDir'' \<mapsto> dir))
           = ''ORDER BY '' @ col @ '' DESC, sku ASC''"
proof -
  have c: "sortCol (query(''sortBy'' \<mapsto> key, ''sortDir'' \<mapsto> d)) = col" for d
    using assms by (auto simp: sortCol_def SORTABLE_get_def SORTABLE_def split: if_splits)
  show "order_by (query(''sortBy'' \<mapsto> key, ''sortDir'' \<mapsto> ''asc''))
           = ''ORDER BY '' @ col @ '' ASC, sku DESC''"
    by (simp add: order_by_def c sortDir_def)
  show "dir \<noteq> ''asc'' \<Longrightarrow> order_by (query(''sortBy'' \<mapsto> key, ''sortDir'' \<mapsto> dir))
           = ''ORDER BY '' @ col @ '' DESC, sku ASC''"
    by (simp add: order_by_def c sortDir_def)
qed

lemma sortCol_fallback:
  "key \<notin> fst ` set SORTABLE \<Longrightarrow> key \<notin> fst ` set Object_prototype \<Longrightarrow>
   sortCol (query(''sortBy'' \<mapsto> key)) = ''month''"
  by (simp add: sortCol_def SORTABLE_get_def map_of_eq_None_iff [THEN iffD2])

lemma sortCol_missing: "query ''sortBy'' = None \<Longrightarrow> sortCol query = ''month''"
  by (simp add: sortCol_def SORTABLE_get_def SORTABLE_def Object_prototype_def)

text \<open>
  Claim C10 fails on the code for a \<^verbatim>\<open>sortBy\<close> that names a property inherited from
  \<^verbatim>\<open>Object.prototype\<close>. \<^verbatim>\<open>SORTABLE['constructor']\<close> is the built-in function
  \<^verbatim>\<open>Object\<close>, which is truthy, so the fallback does not apply and the text of that
  function, not one of the eleven column names, is interpolated after \<^verbatim>\<open>ORDER BY\<close>.
\<close>

theorem order_by_constructor:
  "''constructor'' \<notin> fst ` set SORTABLE \<and>
   sortCol [''sortBy'' \<mapsto> ''constructor''] = ''function Object() { [native code] }'' \<and>
   sortCol [''sortBy'' \<mapsto> ''constructor''] \<notin> snd ` set SORTABLE \<and>
   order_by [''sortBy'' \<mapsto> ''constructor'']
     = ''ORDER BY function Object() { [native code] } DESC, sku ASC''"
  by (simp add: sortCol_def SORTABLE_get_def SORTABLE_def Object_prototype_def order_by_def
      sortDir_def)

text \<open>
  Claim C7 fails on the code in its last part, by the same lookup: \<^verbatim>\<open>toString\<close> is not
  in the allow-list, yet the handler does not fall back to \<^verbatim>\<open>month\<close>; the data query
  is malformed and the request is answered with status 500.
\<close>

theorem sortBy_toString_no_fallback:
  "''toString'' \<notin> fst ` set SORTABLE \<and>
   sortCol [''sortBy'' \<mapsto> ''toString''] \<noteq> ''month'' \<and>
   sortCol [''sortBy'' \<mapsto> ''toString''] = ''function toString() { [native code] }'' \<and>
   sortCol [''sortBy'' \<mapsto> ''__proto__''] = ''[object Object]'' \<and>
   lines \<lparr>count_rows = (\<lambda>w ps. Inr 3), data_rows = (\<lambda>w ps col dir l off. Inr [1, 2, 3 :: nat])\<rparr>
     [''sortBy'' \<mapsto> ''toString''] = Status500"
  by (simp add: sortCol_def SORTABLE_get_def SORTABLE_def Object_prototype_def lines_def
      split: prod.splits option.splits)

section \<open>Pagination\<close>
















lemma filter_upt_first:
  "P 1 \<Longrightarrow> \<exists>ks. filter P [1..<18] = 1 # ks"
proof -
  assume "P 1"
  have "[1..<18::nat] = 1 # [2..<18]"
    by (simp add: upt_conv_Cons)
  then have "filter P [1..<18] = 1 # filter P [2..<18]"
    using \<open>P 1\<close> by (simp only: filter.simps if_True)
  then show ?thesis ..
qed

text \<open>
  A page whose offset passes the largest \<^verbatim>\<open>bigint\<close> is answered with status 500:
  \<^verbatim>\<open>page=999999999999999999\<close> is read as the double \<open>10^18\<close>, the offset is
  \<open>5 * 10^19\<close>, and the data statement ends in
  \<^verbatim>\<open>LIMIT 50 OFFSET 50000000000000000000\<close>.
\<close>

lemma offset_beyond_bigint:
  "page [''page'' \<mapsto> ''999999999999999999''] = Num 1000000000000000000 \<and>
   offset [''page'' \<mapsto> ''999999999999999999''] = Num 50000000000000000000 \<and>
   limit_offset [''page'' \<mapsto> ''999999999999999999''] = ''LIMIT 50 OFFSET 50000000000000000000'' \<and>
   lines \<lparr>count_rows = (\<lambda>w ps. Inr 3), data_rows = (\<lambda>w ps col dir l off. Inr [1, 2, 3 :: nat])\<rparr>
     [''page'' \<mapsto> ''999999999999999999''] = Status500"
proof -
  let ?q = "[''page'' \<mapsto> ''999999999999999999'']"
  have p: "page ?q = Num 1000000000000000000"
    by (simp add: page_def parseInt_simps js_max_def bitlen.simps)
  have s: "pageSize ?q = Num 50"
    by (simp add: pageSize_def parseInt_simps js_max_def js_min_def)
  have o: "offset ?q = Num 50000000000000000000"
    by (simp add: offset_def p s to_double_def round_double_def bitlen.simps Let_def)
  have dc: "digit_choices 50000000000000000000 1 = [(5, 20)]"
    by (simp add: digit_choices_def candidates_def round_double_def
        bitlen.simps Let_def show_nat.simps digit_char_def)
  then obtain ks where "filter (\<lambda>k. digit_choices 50000000000000000000 k \<noteq> []) [1..<18] = 1 # ks"
    using filter_upt_first [of "\<lambda>k. digit_choices 50000000000000000000 k \<noteq> []"] by auto
  moreover have "digit_choices 50000000000000000000 (Suc 0) = [(5, 20)]"
    using dc by simp
  ultimately have d: "shortest_digits 50000000000000000000 = Some (1, 5, 20)"
    by (simp add: shortest_digits_def del: upt_rec_numeral)
  have z: "replicate 19 CHR ''0'' = ''0000000000000000000''"
    by (simp add: numeral_eq_Suc)
  have t: "show_double 50000000000000000000 = ''50000000000000000000''"
    by (simp add: show_double_def d show_nat.simps digit_char_def z)
  have l: "show_double 50 = ''50''"
    by (simp add: show_double_def show_nat.simps digit_char_def)
  have i: "sql_integer ''50000000000000000000'' = Some 50000000000000000000"
    by (simp add: sql_integer_def is_digit_def parse_nat_def digit_val_def)
  have lo: "limit_offset ?q = ''LIMIT 50 OFFSET 50000000000000000000''"
    by (simp add: limit_offset_def s o t l)
  have "lines db ?q = Status500" for db :: "nat database"
    by (simp add: lines_def s o t l i bigint_max_def split: prod.splits option.splits)
  then show ?thesis
    using p o lo by simp
qed








end
